theory Spec2Isabelle
  imports Complex_Main
begin

section \<open>JavaScript values and string helpers\<close>

text \<open>
  The fragment of JavaScript values that the access gate reads from a user record.
  Firestore documents are untyped, so a field may be absent (\<open>undefined\<close>), \<open>null\<close>,
  a boolean, a number or a string. Numbers are kept to the integers; \<open>NaN\<close> is out of scope.
\<close>

datatype jsval = JUndefined | JNull | JBool bool | JNum int | JStr string

text \<open>JavaScript truthiness, as used by \<open>if (x)\<close>, \<open>!x\<close> and \<open>x || y\<close>.\<close>

fun truthy :: "jsval \<Rightarrow> bool" where
  "truthy JUndefined = False"
| "truthy JNull = False"
| "truthy (JBool b) = b"
| "truthy (JNum n) = (n \<noteq> 0)"
| "truthy (JStr s) = (s \<noteq> [])"

text \<open>\<open>a || b\<close>: the left operand when it is truthy, the right one otherwise.\<close>

definition js_or :: "jsval \<Rightarrow> jsval \<Rightarrow> jsval" where
  "js_or a b = (if truthy a then a else b)"

text \<open>
  \<open>String.prototype.toLowerCase\<close> on the ASCII range (the key names the browser reports
  for the keys of interest are ASCII).
\<close>

definition toLowerCase_char :: "char \<Rightarrow> char" where
  "toLowerCase_char c =
     (case map_of (zip ''ABCDEFGHIJKLMNOPQRSTUVWXYZ'' ''abcdefghijklmnopqrstuvwxyz'') c of
        Some l \<Rightarrow> l
      | None \<Rightarrow> c)"

definition toLowerCase :: "string \<Rightarrow> string" where
  "toLowerCase s = map toLowerCase_char s"

text \<open>\<open>s.startsWith(p)\<close>.\<close>

definition startsWith :: "string \<Rightarrow> string \<Rightarrow> bool" where
  "startsWith s p = (take (length p) s = p)"

text \<open>
  \<open>s.split(sep)\<close> for a one-character separator: the pieces between the separators, in
  order; the result always has at least one element.
\<close>

fun split_on :: "char \<Rightarrow> string \<Rightarrow> string list" where
  "split_on sep [] = [[]]"
| "split_on sep (c # cs) =
     (if c = sep then [] # split_on sep cs
      else (case split_on sep cs of
              [] \<Rightarrow> [[c]]
            | p # ps \<Rightarrow> (c # p) # ps))"

text \<open>\<open>xs[i]\<close> on an array: \<open>undefined\<close> (here \<open>None\<close>) out of range.\<close>

definition js_index :: "'a list \<Rightarrow> nat \<Rightarrow> 'a option" where
  "js_index xs i = (if i < length xs then Some (xs ! i) else None)"

text \<open>\<open>s.replace(a, b)\<close> with one-character strings: only the first occurrence is replaced.\<close>

fun replace_first :: "char \<Rightarrow> char \<Rightarrow> string \<Rightarrow> string" where
  "replace_first a b [] = []"
| "replace_first a b (c # cs) = (if c = a then b # cs else c # replace_first a b cs)"

section \<open>Access gate (\<open>authMiddleware\<close>)\<close>

text \<open>
  The decoded identity token (only the subject id is read by the gate) and the user
  record as stored in the \<open>users\<close> collection.
\<close>

record decoded_token =
  uid :: string

record user_data =
  disabled :: jsval
  disabledReason :: jsval

text \<open>
  The external collaborators: \<open>admin.auth().verifyIdToken\<close> either rejects (with a cause
  that is only logged) or yields the decoded token; the document lookup
  \<open>db.collection('users').doc(uid).get()\<close> either rejects or yields a snapshot, which
  exists (with its data) or not.
\<close>

datatype verify_error = TokenExpired | TokenMalformed | SignatureMismatch | OtherVerifyError

datatype db_error = DbUnavailable

record auth_env =
  verifyIdToken :: "string \<Rightarrow> verify_error + decoded_token"
  users_get :: "string \<Rightarrow> db_error + user_data option"

text \<open>
  The outcome of the middleware for one request: either the response it sent itself
  (status and JSON body, after which nothing downstream runs), or the call of \<open>next()\<close>
  with the verified identity attached to the request as \<open>req.user\<close>.
\<close>

record response =
  status :: nat
  message :: string
  reason :: "jsval option"

datatype outcome = Responded response | Next decoded_token

definition unauthorized_no_token :: response where
  "unauthorized_no_token =
     \<lparr>status = 401, message = ''Unauthorized: No token provided'', reason = None\<rparr>"

definition unauthorized_invalid :: response where
  "unauthorized_invalid =
     \<lparr>status = 401, message = ''Unauthorized: Invalid token'', reason = None\<rparr>"

definition forbidden :: "jsval \<Rightarrow> response" where
  "forbidden r =
     \<lparr>status = 403, message = ''Account suspended due to security violations.'',
      reason = Some r\<rparr>"

definition default_reason :: jsval where
  "default_reason = JStr ''Terms verification pending''"

text \<open>The test on the header: present, non-empty and starting with \<open>Bearer\<close> and a space.\<close>

definition is_bearer :: "string option \<Rightarrow> bool" where
  "is_bearer authHeader =
     (case authHeader of None \<Rightarrow> False | Some h \<Rightarrow> h \<noteq> [] \<and> startsWith h ''Bearer '')"

text \<open>The token: the second piece of the header split at spaces.\<close>

definition bearer_token :: "string \<Rightarrow> string option" where
  "bearer_token h = js_index (split_on CHR '' '' h) 1"

text \<open>
  \<open>authMiddleware\<close>. The header is \<open>None\<close> when the request carries no
  \<open>Authorization\<close> header. Every exception inside the \<open>try\<close> block (a rejected
  verification, a rejected lookup, a token that is not a string) ends in the same 401.
\<close>

definition authMiddleware :: "auth_env \<Rightarrow> string option \<Rightarrow> outcome" where
  "authMiddleware env authHeader =
     (case authHeader of
        None \<Rightarrow> Responded unauthorized_no_token
      | Some h \<Rightarrow>
          if is_bearer (Some h) then
            (case bearer_token h of
               None \<Rightarrow> Responded unauthorized_invalid
             | Some token \<Rightarrow>
                 (case verifyIdToken env token of
                    Inl e \<Rightarrow> Responded unauthorized_invalid
                  | Inr decodedToken \<Rightarrow>
                      (case users_get env (uid decodedToken) of
                         Inl e \<Rightarrow> Responded unauthorized_invalid
                       | Inr None \<Rightarrow> Next decodedToken
                       | Inr (Some userData) \<Rightarrow>
                           if truthy (disabled userData) then
                             Responded
                               (forbidden (js_or (disabledReason userData) default_reason))
                           else Next decodedToken)))
          else Responded unauthorized_no_token)"

text \<open>Whether the downstream handler was entered, and what the gate itself sent.\<close>

fun handler_ran :: "outcome \<Rightarrow> bool" where
  "handler_ran (Responded r) = False"
| "handler_ran (Next d) = True"

fun gate_status :: "outcome \<Rightarrow> nat option" where
  "gate_status (Responded r) = Some (status r)"
| "gate_status (Next d) = None"

fun gate_reason :: "outcome \<Rightarrow> jsval option" where
  "gate_reason (Responded r) = reason r"
| "gate_reason (Next d) = None"

section \<open>Event classifier (the table and the F12 test of \<open>handleKeyDown\<close>)\<close>

record key_event =
  key :: string
  ctrlKey :: bool
  metaKey :: bool
  shiftKey :: bool

text \<open>A row of \<open>blockedCombinations\<close>; \<open>shift\<close> is absent (\<open>None\<close>) in the first five rows.\<close>

record combo =
  ctrl :: bool
  shift :: "bool option"
  ckey :: string
  action :: string

definition blockedCombinations :: "combo list" where
  "blockedCombinations =
     [\<lparr>ctrl = True, shift = None, ckey = ''p'', action = ''print''\<rparr>,
      \<lparr>ctrl = True, shift = None, ckey = ''s'', action = ''save''\<rparr>,
      \<lparr>ctrl = True, shift = None, ckey = ''c'', action = ''copy''\<rparr>,
      \<lparr>ctrl = True, shift = None, ckey = ''a'', action = ''select_all''\<rparr>,
      \<lparr>ctrl = True, shift = None, ckey = ''u'', action = ''view_source''\<rparr>,
      \<lparr>ctrl = True, shift = Some True, ckey = ''i'', action = ''devtools''\<rparr>,
      \<lparr>ctrl = True, shift = Some True, ckey = ''j'', action = ''devtools''\<rparr>,
      \<lparr>ctrl = True, shift = Some True, ckey = ''c'', action = ''devtools''\<rparr>,
      \<lparr>ctrl = True, shift = Some True, ckey = ''s'', action = ''screenshot''\<rparr>]"

definition isCtrl :: "key_event \<Rightarrow> bool" where
  "isCtrl e = (ctrlKey e \<or> metaKey e)"

definition combo_matches :: "key_event \<Rightarrow> combo \<Rightarrow> bool" where
  "combo_matches e c =
     (let ctrlMatch = (if ctrl c then isCtrl e else True);
          shiftMatch = (if shift c = Some True then shiftKey e else \<not> shiftKey e);
          keyMatch = (toLowerCase (key e) = ckey c)
      in ctrlMatch \<and> shiftMatch \<and> keyMatch)"

text \<open>The \<open>for\<close> loop over the table: the first matching row decides.\<close>

fun first_match :: "key_event \<Rightarrow> combo list \<Rightarrow> combo option" where
  "first_match e [] = None"
| "first_match e (c # cs) = (if combo_matches e c then Some c else first_match e cs)"

datatype verdict = Block string | Allow

text \<open>
  Lines 150 to 191 of the handler: the table loop, then the test for F12 on the raw
  (not lower-cased) key, whatever the modifiers.
\<close>

definition classify :: "key_event \<Rightarrow> verdict" where
  "classify e =
     (case first_match e blockedCombinations of
        Some c \<Rightarrow> Block (action c)
      | None \<Rightarrow> if key e = ''F12'' then Block ''devtools'' else Allow)"

text \<open>
  The classifier as the specification words it: one ordered table of rules, each with a
  control-or-meta requirement (required or irrelevant), a shift requirement (required
  present or required absent) and a key; the tenth rule is the bare F12 key.
\<close>

record spec_rule =
  ctrl_required :: bool
  shift_present :: bool
  rule_key :: string
  rule_action :: string

definition spec_rules :: "spec_rule list" where
  "spec_rules =
     [\<lparr>ctrl_required = True, shift_present = False, rule_key = ''p'', rule_action = ''print''\<rparr>,
      \<lparr>ctrl_required = True, shift_present = False, rule_key = ''s'', rule_action = ''save''\<rparr>,
      \<lparr>ctrl_required = True, shift_present = False, rule_key = ''c'', rule_action = ''copy''\<rparr>,
      \<lparr>ctrl_required = True, shift_present = False, rule_key = ''a'', rule_action = ''select_all''\<rparr>,
      \<lparr>ctrl_required = True, shift_present = False, rule_key = ''u'', rule_action = ''view_source''\<rparr>,
      \<lparr>ctrl_required = True, shift_present = True, rule_key = ''i'', rule_action = ''devtools''\<rparr>,
      \<lparr>ctrl_required = True, shift_present = True, rule_key = ''j'', rule_action = ''devtools''\<rparr>,
      \<lparr>ctrl_required = True, shift_present = True, rule_key = ''c'', rule_action = ''devtools''\<rparr>,
      \<lparr>ctrl_required = True, shift_present = True, rule_key = ''s'', rule_action = ''screenshot''\<rparr>,
      \<lparr>ctrl_required = False, shift_present = False, rule_key = ''f12'', rule_action = ''devtools''\<rparr>]"

definition spec_rule_matches :: "key_event \<Rightarrow> spec_rule \<Rightarrow> bool" where
  "spec_rule_matches e r =
     ((if ctrl_required r then ctrlKey e \<or> metaKey e else True)
      \<and> shiftKey e = shift_present r
      \<and> toLowerCase (key e) = rule_key r)"

fun spec_first :: "key_event \<Rightarrow> spec_rule list \<Rightarrow> spec_rule option" where
  "spec_first e [] = None"
| "spec_first e (r # rs) = (if spec_rule_matches e r then Some r else spec_first e rs)"

definition spec_classify :: "key_event \<Rightarrow> verdict" where
  "spec_classify e =
     (case spec_first e spec_rules of Some r \<Rightarrow> Block (rule_action r) | None \<Rightarrow> Allow)"

section \<open>Security monitor (\<open>useSecurityLayers\<close>)\<close>

subsection \<open>State\<close>

text \<open>
  The inline style of the protected element, the security events handed to
  \<open>onSecurityEvent\<close> (type and details; the caller's \<open>userInfo\<close>, the page URL and
  the user agent, which \<open>logEvent\<close> copies unchanged into every event, are left out),
  and the callbacks the hook passes to \<open>setTimeout\<close>: the clearing of the violation
  banner, \<open>showContent\<close> itself, and the arrow function inside \<open>showContent\<close> that
  restores the style.
\<close>

record style =
  opacity :: string
  css_filter :: string

datatype security_event =
    CONTEXT_MENU_BLOCKED
  | KEYBOARD_BLOCKED string string
  | PRINTSCREEN_BLOCKED
  | FOCUS_LOST
  | TAB_HIDDEN
  | DEVTOOLS_DETECTED string
  | LARGE_RESIZE_DETECTED int int int int
  | COPY_BLOCKED

datatype callback = ClearViolation | ShowContent | RestoreStyle

datatype js_error = TypeError | NotAllowedError

text \<open>
  \<open>navigator.clipboard\<close>: undefined (its use throws synchronously), present with a
  \<open>writeText\<close> whose promise rejects (the handlers attach nothing to the promise, so
  the rejection stays unhandled), or present and writing.
\<close>

datatype clipboard_api = NoClipboard | ClipboardRejects | ClipboardWrites

text \<open>
  The hook's React state (\<open>isFocused\<close>, \<open>devToolsOpen\<close>, \<open>securityViolation\<close>,
  \<open>triggerCount\<close>), its refs (\<open>lastWidth\<close>, \<open>lastHeight\<close>), and what it acts on:
  \<open>content\<close> is \<open>contentRef?.current\<close> (\<open>None\<close> when the reference or its element is
  null), \<open>timers\<close> the pending \<open>setTimeout\<close> calls with their due times in
  milliseconds, \<open>emitted\<close> the events given to the sink with their timestamps,
  \<open>uncaught\<close> the exceptions that escaped a timer callback, \<open>unhandledRejections\<close>
  the rejected promises nobody handled. \<open>windowHasFocus\<close> and
  \<open>documentHidden\<close> are the browser's own view, as last notified.
  \<open>keyupListeners\<close> counts the keyup listeners on the document: every run of the
  keyboard layer's effect adds one and none is ever removed.
\<close>

record monitor =
  isFocused :: bool
  devToolsOpen :: bool
  securityViolation :: "string option"
  triggerCount :: nat
  lastWidth :: int
  lastHeight :: int
  content :: "style option"
  now :: nat
  timers :: "(nat \<times> callback) list"
  emitted :: "(nat \<times> security_event) list"
  uncaught :: "js_error list"
  unhandledRejections :: "js_error list"
  clipboardApi :: clipboard_api
  clipboardText :: string
  windowHasFocus :: bool
  documentHidden :: bool
  keyupListeners :: nat

text \<open>
  The state at mount: \<open>useState(true)\<close>, \<open>useState(false)\<close>, \<open>useState(null)\<close>,
  \<open>useState(0)\<close>; the effects have run once.
\<close>

definition init :: "style option \<Rightarrow> clipboard_api \<Rightarrow> int \<Rightarrow> int \<Rightarrow> monitor" where
  "init c api w h =
     \<lparr>isFocused = True, devToolsOpen = False, securityViolation = None, triggerCount = 0,
      lastWidth = w, lastHeight = h, content = c, now = 0, timers = [], emitted = [],
      uncaught = [], unhandledRejections = [], clipboardApi = api, clipboardText = [],
      windowHasFocus = True, documentHidden = False, keyupListeners = Suc 0\<rparr>"

text \<open>The computed flag: \<open>isFocused && !devToolsOpen && !securityViolation\<close>.\<close>

definition isSecure :: "monitor \<Rightarrow> bool" where
  "isSecure s =
     (isFocused s \<and> \<not> devToolsOpen s
      \<and> \<not> (case securityViolation s of None \<Rightarrow> False | Some m \<Rightarrow> m \<noteq> []))"

subsection \<open>Helpers of the hook\<close>

definition setTimeout :: "callback \<Rightarrow> nat \<Rightarrow> monitor \<Rightarrow> monitor" where
  "setTimeout cb ms s = s\<lparr>timers := timers s @ [(now s + ms, cb)]\<rparr>"

definition hideContentInstantly :: "monitor \<Rightarrow> monitor" where
  "hideContentInstantly s =
     (case content s of
        None \<Rightarrow> s
      | Some st \<Rightarrow> s\<lparr>content := Some (st\<lparr>opacity := ''0'', css_filter := ''blur(50px)''\<rparr>)\<rparr>)"

text \<open>\<open>showContent\<close> tests the reference when it is called and schedules the restore.\<close>

definition showContent :: "monitor \<Rightarrow> monitor" where
  "showContent s = (case content s of None \<Rightarrow> s | Some st \<Rightarrow> setTimeout RestoreStyle 100 s)"

text \<open>
  The scheduled arrow function: it dereferences \<open>contentRef.current.style\<close> without a
  test, which throws when the element is gone.
\<close>

definition restoreStyle :: "monitor \<Rightarrow> js_error + monitor" where
  "restoreStyle s =
     (case content s of
        None \<Rightarrow> Inl TypeError
      | Some st \<Rightarrow> Inr (s\<lparr>content := Some (st\<lparr>opacity := ''1'', css_filter := ''none''\<rparr>)\<rparr>))"

definition logEvent :: "security_event \<Rightarrow> monitor \<Rightarrow> monitor" where
  "logEvent ev s =
     s\<lparr>triggerCount := Suc (triggerCount s), emitted := emitted s @ [(now s, ev)]\<rparr>"

definition showViolation :: "string \<Rightarrow> monitor \<Rightarrow> monitor" where
  "showViolation msg s = setTimeout ClearViolation 3000 (s\<lparr>securityViolation := Some msg\<rparr>)"

definition clipboard_notice :: string where
  "clipboard_notice = ''Screenshot disabled - This content is protected''"

definition writeText :: "string \<Rightarrow> monitor \<Rightarrow> js_error + monitor" where
  "writeText txt s =
     (case clipboardApi s of
        NoClipboard \<Rightarrow> Inl TypeError
      | ClipboardRejects \<Rightarrow>
          Inr (s\<lparr>unhandledRejections := unhandledRejections s @ [NotAllowedError]\<rparr>)
      | ClipboardWrites \<Rightarrow> Inr (s\<lparr>clipboardText := txt\<rparr>))"

text \<open>\<open>try { navigator.clipboard.writeText(...) } catch (err) { }\<close>.\<close>

definition tryClearClipboard :: "monitor \<Rightarrow> monitor" where
  "tryClearClipboard s = (case writeText clipboard_notice s of Inl e \<Rightarrow> s | Inr s' \<Rightarrow> s')"

subsection \<open>Event handlers of the layers\<close>

definition handleContextMenu :: "monitor \<Rightarrow> monitor" where
  "handleContextMenu s = showViolation ''Right-click is disabled'' (logEvent CONTEXT_MENU_BLOCKED s)"

definition printScreenDown :: "monitor \<Rightarrow> monitor" where
  "printScreenDown s =
     setTimeout ShowContent 2000
       (showViolation ''Screenshots are disabled''
          (logEvent PRINTSCREEN_BLOCKED (tryClearClipboard (hideContentInstantly s))))"

definition handleKeyDown :: "key_event \<Rightarrow> monitor \<Rightarrow> monitor" where
  "handleKeyDown e s =
     (case first_match e blockedCombinations of
        Some c \<Rightarrow>
          showViolation (replace_first CHR ''_'' CHR '' '' (action c) @ '' is disabled'')
            (logEvent (KEYBOARD_BLOCKED (action c) (key e)) s)
      | None \<Rightarrow>
          if key e = ''F12'' then
            showViolation ''Developer tools are disabled''
              (logEvent (KEYBOARD_BLOCKED ''devtools'' ''F12'') s)
          else if key e = ''PrintScreen'' then printScreenDown s
          else if key e = ''Meta'' \<or> key e = ''OS'' then hideContentInstantly s
          else s)"

text \<open>The anonymous \<open>keyup\<close> listener: two independent \<open>if\<close> statements.\<close>

definition handleKeyUp :: "key_event \<Rightarrow> monitor \<Rightarrow> monitor" where
  "handleKeyUp e s =
     (let s1 = (if key e = ''PrintScreen''
                then setTimeout ShowContent 2000 (tryClearClipboard (hideContentInstantly s))
                else s)
      in if key e = ''Meta'' \<or> key e = ''OS'' then setTimeout ShowContent 1000 s1 else s1)"

definition handleFocus :: "monitor \<Rightarrow> monitor" where
  "handleFocus s = showContent (s\<lparr>isFocused := True\<rparr>)"

definition handleBlur :: "monitor \<Rightarrow> monitor" where
  "handleBlur s = logEvent FOCUS_LOST (hideContentInstantly (s\<lparr>isFocused := False\<rparr>))"

definition handleVisibilityChange :: "monitor \<Rightarrow> monitor" where
  "handleVisibilityChange s =
     (if documentHidden s
      then logEvent TAB_HIDDEN (hideContentInstantly (s\<lparr>isFocused := False\<rparr>))
      else showContent (s\<lparr>isFocused := True\<rparr>))"

text \<open>
  One run of \<open>checkDevTools\<close> reads the window geometry and two measured durations
  (milliseconds, from \<open>performance.now()\<close>).
\<close>

record devtools_sample =
  outerWidth :: int
  innerWidth :: int
  outerHeight :: int
  innerHeight :: int
  duration :: rat
  debugDuration :: rat

definition devToolsOpen1 :: "devtools_sample \<Rightarrow> bool" where
  "devToolsOpen1 sm =
     (outerWidth sm - innerWidth sm > 160 \<or> outerHeight sm - innerHeight sm > 160)"

definition devToolsOpen2 :: "devtools_sample \<Rightarrow> bool" where
  "devToolsOpen2 sm = (duration sm > 100)"

definition devToolsOpen3 :: "devtools_sample \<Rightarrow> bool" where
  "devToolsOpen3 sm = (debugDuration sm > 100)"

definition isOpen :: "devtools_sample \<Rightarrow> bool" where
  "isOpen sm = (devToolsOpen1 sm \<or> devToolsOpen2 sm \<or> devToolsOpen3 sm)"

definition detection_method :: "devtools_sample \<Rightarrow> string" where
  "detection_method sm =
     (if devToolsOpen1 sm then ''size'' else if devToolsOpen2 sm then ''console'' else ''debugger'')"

definition checkDevTools :: "devtools_sample \<Rightarrow> monitor \<Rightarrow> monitor" where
  "checkDevTools sm s =
     (if isOpen sm \<and> \<not> devToolsOpen s then
        logEvent (DEVTOOLS_DETECTED (detection_method sm)) (s\<lparr>devToolsOpen := True\<rparr>)
      else if \<not> isOpen sm \<and> devToolsOpen s then s\<lparr>devToolsOpen := False\<rparr>
      else s)"

definition handleResize :: "int \<Rightarrow> int \<Rightarrow> monitor \<Rightarrow> monitor" where
  "handleResize w h s =
     (let widthChange = \<bar>w - lastWidth s\<bar>;
          heightChange = \<bar>h - lastHeight s\<bar>;
          s1 = (if widthChange > 500 \<or> heightChange > 500
                then logEvent (LARGE_RESIZE_DETECTED widthChange heightChange w h) s
                else s)
      in s1\<lparr>lastWidth := w, lastHeight := h\<rparr>)"

definition handleCopy :: "monitor \<Rightarrow> monitor" where
  "handleCopy s = showViolation ''Copying is disabled'' (logEvent COPY_BLOCKED s)"

subsection \<open>Timers and the event loop\<close>

text \<open>
  Running a timer callback. An exception escaping a callback is reported by the browser
  and the loop goes on; it is recorded in \<open>uncaught\<close>.
\<close>

definition fire :: "callback \<Rightarrow> monitor \<Rightarrow> js_error + monitor" where
  "fire cb s =
     (case cb of
        ClearViolation \<Rightarrow> Inr (s\<lparr>securityViolation := None\<rparr>)
      | ShowContent \<Rightarrow> Inr (showContent s)
      | RestoreStyle \<Rightarrow> restoreStyle s)"

definition run_callback :: "callback \<Rightarrow> monitor \<Rightarrow> monitor" where
  "run_callback cb s =
     (case fire cb s of Inl e \<Rightarrow> s\<lparr>uncaught := uncaught s @ [e]\<rparr> | Inr s' \<Rightarrow> s')"

text \<open>The pending timer that fires next: the least due time, the oldest among equals.\<close>

fun earliest :: "(nat \<times> callback) list \<Rightarrow> (nat \<times> callback) option" where
  "earliest [] = None"
| "earliest (x # xs) =
     (case earliest xs of
        None \<Rightarrow> Some x
      | Some y \<Rightarrow> if fst x \<le> fst y then Some x else Some y)"

text \<open>
  A measure for the loop below: \<open>showContent\<close> as a callback may schedule one restore,
  the other callbacks schedule nothing.
\<close>

fun weight :: "nat \<times> callback \<Rightarrow> nat" where
  "weight (d, ShowContent) = 2"
| "weight (d, ClearViolation) = 1"
| "weight (d, RestoreStyle) = 1"

definition pending_weight :: "monitor \<Rightarrow> nat" where
  "pending_weight s = sum_list (map weight (timers s))"

text \<open>
  The event loop up to time \<open>t\<close>: as long as a pending timer is due, the next one is taken
  off the list and run at its due time; then the clock stands at \<open>t\<close>. Timers are never
  cancelled (the hook calls no \<open>clearTimeout\<close>).
\<close>

function advance :: "nat \<Rightarrow> monitor \<Rightarrow> monitor" where
  "advance t s =
     (case earliest (timers s) of
        None \<Rightarrow> s\<lparr>now := max (now s) t\<rparr>
      | Some (due, cb) \<Rightarrow>
          if due \<le> t then
            advance t
              (run_callback cb
                 (s\<lparr>timers := remove1 (due, cb) (timers s), now := max (now s) due\<rparr>))
          else s\<lparr>now := max (now s) t\<rparr>)"
  by pat_completeness auto

termination
proof (relation "measure (\<lambda>(t, s). pending_weight s)")
  show "wf (measure (\<lambda>(t, s). pending_weight s))"
    by simp
next
  fix t :: nat and s :: monitor and x2 due cb
  assume e: "earliest (timers s) = Some x2" and x2: "(due, cb) = x2"
  let ?s' = "s\<lparr>timers := remove1 (due, cb) (timers s), now := max (now s) due\<rparr>"
  have pending: "earliest xs = Some x \<Longrightarrow> x \<in> set xs" for xs x
    by (induction xs arbitrary: x) (auto split: option.splits if_splits)
  have removed: "x \<in> set xs \<Longrightarrow>
      sum_list (map weight (remove1 x xs)) + weight x = sum_list (map weight xs)" for x xs
    by (induction xs) auto
  from e x2 have "(due, cb) \<in> set (timers s)"
    by (simp add: pending)
  then have "pending_weight ?s' + weight (due, cb) = pending_weight s"
    by (simp add: pending_weight_def removed)
  moreover have "pending_weight (run_callback cb ?s') + 1 \<le> pending_weight ?s' + weight (due, cb)"
    by (cases cb)
       (auto simp: run_callback_def fire_def pending_weight_def showContent_def setTimeout_def
                   restoreStyle_def split: option.splits)
  ultimately show "((t, run_callback cb ?s'), (t, s)) \<in> measure (\<lambda>(t, s). pending_weight s)"
    by simp
qed

declare advance.simps [simp del]

subsection \<open>Events and runs\<close>

text \<open>
  The events a mounted viewer receives: one per listener of the layers, the periodic
  DevTools check with what it measured, a further run of the keyboard layer's effect
  (one of its dependencies changed), and the removal of the protected element (React
  sets the reference to null). A keyup event runs every keyup listener on the document,
  each doing the same. A run is a list of events with their times.
\<close>

datatype event =
    ContextMenu
  | KeyDown key_event
  | KeyUp key_event
  | Focus
  | Blur
  | VisibilityChange bool
  | Poll devtools_sample
  | Resize int int
  | DragStart
  | Drop
  | SelectStart
  | Copy
  | Cut
  | KeyboardEffect
  | Unmount

definition dispatch :: "event \<Rightarrow> monitor \<Rightarrow> monitor" where
  "dispatch ev s =
     (case ev of
        ContextMenu \<Rightarrow> handleContextMenu s
      | KeyDown e \<Rightarrow> handleKeyDown e s
      | KeyUp e \<Rightarrow> (handleKeyUp e ^^ keyupListeners s) s
      | Focus \<Rightarrow> handleFocus (s\<lparr>windowHasFocus := True\<rparr>)
      | Blur \<Rightarrow> handleBlur (s\<lparr>windowHasFocus := False\<rparr>)
      | VisibilityChange h \<Rightarrow> handleVisibilityChange (s\<lparr>documentHidden := h\<rparr>)
      | Poll sm \<Rightarrow> checkDevTools sm s
      | Resize w h \<Rightarrow> handleResize w h s
      | DragStart \<Rightarrow> s
      | Drop \<Rightarrow> s
      | SelectStart \<Rightarrow> s
      | Copy \<Rightarrow> handleCopy s
      | Cut \<Rightarrow> s
      | KeyboardEffect \<Rightarrow> s\<lparr>keyupListeners := Suc (keyupListeners s)\<rparr>
      | Unmount \<Rightarrow> s\<lparr>content := None\<rparr>)"

fun run :: "(nat \<times> event) list \<Rightarrow> monitor \<Rightarrow> monitor" where
  "run [] s = s"
| "run ((t, ev) # evs) s = run evs (dispatch ev (advance t s))"

subsection \<open>Listener registration of the layers\<close>

text \<open>
  The listeners registered on \<open>document\<close> and \<open>window\<close>. A listener is identified by
  its target, its event type, its function object and its capture flag. Every run of an
  effect creates new function objects, so a function is named by its role in the source
  and the number of the effect run that created it.
\<close>

datatype target = Document | Window

datatype fn = Fn string nat

type_synonym listener = "target \<times> string \<times> fn \<times> bool"

text \<open>
  \<open>addEventListener\<close> ignores a listener that is already registered;
  \<open>removeEventListener\<close> does nothing when the listener is not registered.
\<close>

definition addEventListener :: "listener \<Rightarrow> listener list \<Rightarrow> listener list" where
  "addEventListener l reg = (if l \<in> set reg then reg else reg @ [l])"

definition removeEventListener :: "listener \<Rightarrow> listener list \<Rightarrow> listener list" where
  "removeEventListener l reg = removeAll l reg"

datatype layer =
  ContextMenuLayer | KeyboardLayer | FocusLayer | ResizeLayer | DragDropLayer | SelectionLayer

text \<open>What the effect of each layer registers in its run \<open>g\<close>, in the order of the source.\<close>

fun attached_by :: "layer \<Rightarrow> nat \<Rightarrow> listener list" where
  "attached_by ContextMenuLayer g = [(Document, ''contextmenu'', Fn ''handleContextMenu'' g, True)]"
| "attached_by KeyboardLayer g =
     [(Document, ''keydown'', Fn ''handleKeyDown'' g, True),
      (Document, ''keyup'', Fn ''keyup arrow function'' g, True)]"
| "attached_by FocusLayer g =
     [(Window, ''focus'', Fn ''handleFocus'' g, False),
      (Window, ''blur'', Fn ''handleBlur'' g, False),
      (Document, ''visibilitychange'', Fn ''handleVisibilityChange'' g, False)]"
| "attached_by ResizeLayer g = [(Window, ''resize'', Fn ''handleResize'' g, False)]"
| "attached_by DragDropLayer g =
     [(Document, ''dragstart'', Fn ''handleDragStart'' g, True),
      (Document, ''drop'', Fn ''handleDrop'' g, True)]"
| "attached_by SelectionLayer g =
     [(Document, ''selectstart'', Fn ''handleSelectStart'' g, True),
      (Document, ''copy'', Fn ''handleCopy'' g, True),
      (Document, ''cut'', Fn ''handleCut'' g, True)]"

text \<open>What the cleanup function returned by that run removes.\<close>

fun removed_by :: "layer \<Rightarrow> nat \<Rightarrow> listener list" where
  "removed_by ContextMenuLayer g = [(Document, ''contextmenu'', Fn ''handleContextMenu'' g, True)]"
| "removed_by KeyboardLayer g = [(Document, ''keydown'', Fn ''handleKeyDown'' g, True)]"
| "removed_by FocusLayer g =
     [(Window, ''focus'', Fn ''handleFocus'' g, False),
      (Window, ''blur'', Fn ''handleBlur'' g, False),
      (Document, ''visibilitychange'', Fn ''handleVisibilityChange'' g, False)]"
| "removed_by ResizeLayer g = [(Window, ''resize'', Fn ''handleResize'' g, False)]"
| "removed_by DragDropLayer g =
     [(Document, ''dragstart'', Fn ''handleDragStart'' g, True),
      (Document, ''drop'', Fn ''handleDrop'' g, True)]"
| "removed_by SelectionLayer g =
     [(Document, ''selectstart'', Fn ''handleSelectStart'' g, True),
      (Document, ''copy'', Fn ''handleCopy'' g, True),
      (Document, ''cut'', Fn ''handleCut'' g, True)]"

text \<open>
  One run of a layer's effect (\<open>if (!enabled) return;\<close> registers nothing and returns no
  cleanup), and the cleanup React calls before the next run or at unmount.
\<close>

definition layer_effect :: "layer \<Rightarrow> bool \<Rightarrow> nat \<Rightarrow> listener list \<Rightarrow> listener list" where
  "layer_effect L enabled g reg = (if enabled then fold addEventListener (attached_by L g) reg else reg)"

definition layer_cleanup :: "layer \<Rightarrow> bool \<Rightarrow> nat \<Rightarrow> listener list \<Rightarrow> listener list" where
  "layer_cleanup L enabled g reg =
     (if enabled then fold removeEventListener (removed_by L g) reg else reg)"

text \<open>
  The life of a layer under a sequence of values of \<open>enabled\<close>: each value starts effect
  run \<open>g\<close>, whose cleanup runs before the next one starts; the last cleanup is the
  component's teardown.
\<close>

fun toggle :: "layer \<Rightarrow> nat \<Rightarrow> bool list \<Rightarrow> listener list \<Rightarrow> listener list" where
  "toggle L g [] reg = reg"
| "toggle L g (en # ens) reg = toggle L (Suc g) ens (layer_cleanup L en g (layer_effect L en g reg))"

section \<open>Signed-URL probing (\<open>testAccess\<close>)\<close>

text \<open>
  The options given to \<open>cloudinary.url\<close>, the result of one \<open>https.get\<close> (a response
  with its status code, an \<open>error\<close> event with its message, or an exception thrown by
  the call itself, as for a string that is no URL), and the lines written to the console.
\<close>

record url_options =
  resource_type :: string
  delivery_type :: string
  sign_url :: bool
  secure :: bool

datatype get_result = Status nat | NetError string | RequestThrows string

datatype log_line =
    Info string
  | CloudName "string option"
  | Testing string string
  | GeneratedURL string
  | StatusLine nat
  | Success
  | Failed
  | ErrorLine string

text \<open>
  The collaborators: the configured cloud name (\<open>None\<close> when the variable is not set);
  the URL signer, which returns the URL or throws (\<open>Inl\<close> with the message, as it does
  without a cloud name); and the network, which answers the \<open>i\<close>-th request of the run
  for a given URL.
\<close>

record probe_env =
  cloud_name :: "string option"
  cloudinary_url :: "string \<Rightarrow> url_options \<Rightarrow> string + string"
  https_get :: "nat \<Rightarrow> string \<Rightarrow> get_result"

definition publicId :: string where
  "publicId = ''pdf-viewer/0782da2b-81c6-430b-b89d-f11524bd281b/5c6e308a-ef44-4d03-a997-2812b0361336''"

definition resourceTypes :: "string list" where
  "resourceTypes = [''image'', ''raw'', ''auto'']"

definition types :: "string list" where
  "types = [''upload'', ''authenticated'']"

text \<open>
  What the callbacks of one request write, and the exception that leaves the promise (and
  with it the whole script) when the call throws.
\<close>

fun response_lines :: "get_result \<Rightarrow> log_line list" where
  "response_lines (Status code) = [StatusLine code, if code = 200 then Success else Failed]"
| "response_lines (NetError m) = [ErrorLine m]"
| "response_lines (RequestThrows e) = []"

fun thrown :: "get_result \<Rightarrow> string option" where
  "thrown (RequestThrows e) = Some e"
| "thrown (Status code) = None"
| "thrown (NetError m) = None"

text \<open>
  The body of the inner loop, given the request number: the lines of one attempt, and
  the exception that ends the run, if any.
\<close>

definition attempt :: "probe_env \<Rightarrow> nat \<Rightarrow> string \<Rightarrow> string \<Rightarrow> log_line list \<times> string option" where
  "attempt env i rType type =
     (case cloudinary_url env publicId
             \<lparr>resource_type = rType, delivery_type = type, sign_url = True, secure = True\<rparr> of
        Inl e \<Rightarrow> ([Testing rType type], Some e)
      | Inr url \<Rightarrow>
          ([Testing rType type, GeneratedURL url] @ response_lines (https_get env i url),
           thrown (https_get env i url)))"

text \<open>
  The two loops; the state is the number of requests made so far and the console. An
  exception leaves both loops at once.
\<close>

fun inner_loop ::
  "probe_env \<Rightarrow> string \<Rightarrow> string list \<Rightarrow> nat \<times> log_line list
     \<Rightarrow> nat \<times> log_line list \<times> string option" where
  "inner_loop env rType [] (i, out) = (i, out, None)"
| "inner_loop env rType (type # ts) (i, out) =
     (case attempt env i rType type of
        (ls, Some e) \<Rightarrow> (i, out @ ls, Some e)
      | (ls, None) \<Rightarrow> inner_loop env rType ts (Suc i, out @ ls))"

fun outer_loop ::
  "probe_env \<Rightarrow> string list \<Rightarrow> nat \<times> log_line list \<Rightarrow> nat \<times> log_line list \<times> string option" where
  "outer_loop env [] (i, out) = (i, out, None)"
| "outer_loop env (rType # rs) (i, out) =
     (case inner_loop env rType types (i, out) of
        (i', out', Some e) \<Rightarrow> (i', out', Some e)
      | (i', out', None) \<Rightarrow> outer_loop env rs (i', out'))"

text \<open>The script: the console it wrote, and the exception it ended with, if any.\<close>

definition testAccess :: "probe_env \<Rightarrow> log_line list \<times> string option" where
  "testAccess env =
     (case outer_loop env resourceTypes
             (0, [Info ''Testing Cloudinary Access...'', CloudName (cloud_name env)]) of
        (i, out, err) \<Rightarrow> (out, err))"

text \<open>
  Reading the console back: the combinations attempted, in order, with the URL generated
  for each, and the combinations reported as working.
\<close>

fun attempts :: "log_line list \<Rightarrow> (string \<times> string \<times> string) list" where
  "attempts (Testing r t # GeneratedURL u # ls) = (r, t, u) # attempts ls"
| "attempts (l # ls) = attempts ls"
| "attempts [] = []"

fun successes :: "(string \<times> string) option \<Rightarrow> log_line list \<Rightarrow> (string \<times> string) list" where
  "successes cur [] = []"
| "successes cur (Testing r t # ls) = successes (Some (r, t)) ls"
| "successes (Some c) (Success # ls) = c # successes (Some c) ls"
| "successes cur (l # ls) = successes cur ls"

section \<open>Inputs and observations\<close>

text \<open>
  Concrete inputs at which the properties below are instantiated, and a few functions
  that read a result back.
\<close>

subsection \<open>Access gate\<close>

text \<open>
  An issuer that knows three tokens, and a store in which the first subject is disabled
  (with no reason given), the second has no record and the third is not disabled.
\<close>

definition gate_env :: auth_env where
  "gate_env =
     \<lparr>verifyIdToken =
        (\<lambda>t. if t = ''good'' then Inr \<lparr>uid = ''u1''\<rparr>
             else if t = ''new'' then Inr \<lparr>uid = ''u2''\<rparr>
             else if t = ''ok'' then Inr \<lparr>uid = ''u3''\<rparr>
             else Inl TokenExpired),
      users_get =
        (\<lambda>u. if u = ''u1'' then Inr (Some \<lparr>disabled = JBool True, disabledReason = JUndefined\<rparr>)
             else if u = ''u3'' then Inr (Some \<lparr>disabled = JBool False, disabledReason = JUndefined\<rparr>)
             else Inr None)\<rparr>"

subsection \<open>Key events\<close>

definition shift_f12 :: key_event where
  "shift_f12 = \<lparr>key = ''F12'', ctrlKey = False, metaKey = False, shiftKey = True\<rparr>"

definition ctrl_p :: key_event where
  "ctrl_p = \<lparr>key = ''p'', ctrlKey = True, metaKey = False, shiftKey = False\<rparr>"

definition meta_shift_i :: key_event where
  "meta_shift_i = \<lparr>key = ''I'', ctrlKey = False, metaKey = True, shiftKey = True\<rparr>"

definition plain_x :: key_event where
  "plain_x = \<lparr>key = ''x'', ctrlKey = False, metaKey = False, shiftKey = False\<rparr>"

subsection \<open>Monitor\<close>

text \<open>A mounted viewer with its content shown, and a right-click followed by a copy.\<close>

definition viewer :: monitor where
  "viewer = init (Some \<lparr>opacity = ''1'', css_filter = ''none''\<rparr>) ClipboardWrites 1280 800"

definition two_violations :: "(nat \<times> event) list" where
  "two_violations = [(0, ContextMenu), (1000, Copy)]"

text \<open>
  What a DevTools check can measure: a docked panel (and a slow console), a slow console
  alone, nothing.
\<close>

definition geometry_sample :: devtools_sample where
  "geometry_sample =
     \<lparr>outerWidth = 1280, innerWidth = 900, outerHeight = 800, innerHeight = 700,
      duration = 150, debugDuration = 0\<rparr>"

definition timing_sample :: devtools_sample where
  "timing_sample =
     \<lparr>outerWidth = 1280, innerWidth = 1280, outerHeight = 800, innerHeight = 700,
      duration = 250, debugDuration = 0\<rparr>"

definition quiet_sample :: devtools_sample where
  "quiet_sample =
     \<lparr>outerWidth = 1280, innerWidth = 1280, outerHeight = 800, innerHeight = 700,
      duration = 1, debugDuration = 0\<rparr>"

text \<open>A list of DevTools checks with their times, as events.\<close>

definition polls :: "(nat \<times> devtools_sample) list \<Rightarrow> (nat \<times> event) list" where
  "polls tss = map (\<lambda>(t, sm). (t, Poll sm)) tss"

definition printscreen_key :: key_event where
  "printscreen_key = \<lparr>key = ''PrintScreen'', ctrlKey = False, metaKey = False, shiftKey = False\<rparr>"

text \<open>The style after the instant hide, and the clipboard after the overwrite attempt.\<close>

definition hidden :: "style option \<Rightarrow> style option" where
  "hidden c = map_option (\<lambda>st. st\<lparr>opacity := ''0'', css_filter := ''blur(50px)''\<rparr>) c"

definition overwritten :: "monitor \<Rightarrow> string" where
  "overwritten s = (if clipboardApi s = ClipboardWrites then clipboard_notice else clipboardText s)"

subsection \<open>Probe\<close>

text \<open>
  A signer that returns a URL made of the two options, and a network on which the
  fourth request succeeds and the fifth fails; a signer that has no cloud name.
\<close>

definition probe_env0 :: probe_env where
  "probe_env0 =
     \<lparr>cloud_name = Some ''demo'',
      cloudinary_url = (\<lambda>p opts. Inr (resource_type opts @ ''/'' @ delivery_type opts)),
      https_get = (\<lambda>i u. if i = 3 then Status 200 else if i = 4 then NetError ''reset''
                          else Status 404)\<rparr>"

definition probe_env_unconfigured :: probe_env where
  "probe_env_unconfigured =
     \<lparr>cloud_name = None,
      cloudinary_url = (\<lambda>p opts. Inl ''Must supply cloud_name''),
      https_get = (\<lambda>i u. Status 404)\<rparr>"

section \<open>Properties of the access gate\<close>

lemma split_on_nonempty: "split_on sep s \<noteq> []"
  by (induction s) (auto split: list.splits)

lemma split_on_prefix: "sep \<notin> set p \<Longrightarrow> split_on sep (p @ sep # r) = p # split_on sep r"
  by (induction p) (auto split: list.splits)

lemma bearer_token_defined:
  assumes "startsWith h ''Bearer ''"
  shows "\<exists>t. bearer_token h = Some t"
proof -
  define r where "r = drop (length ''Bearer '') h"
  from assms have "take (length ''Bearer '') h = ''Bearer ''"
    by (simp only: startsWith_def)
  then have "h = ''Bearer '' @ r"
    unfolding r_def using append_take_drop_id [of "length ''Bearer ''" h] by (simp only:)
  then have "h = ''Bearer'' @ CHR '' '' # r"
    by simp
  then have "split_on CHR '' '' h = ''Bearer'' # split_on CHR '' '' r"
    using split_on_prefix [of "CHR '' ''" "''Bearer''" r] by simp
  then show ?thesis
    using split_on_nonempty [of "CHR '' ''" r]
    by (cases "split_on CHR '' '' r") (auto simp: bearer_token_def js_index_def)
qed

lemma authMiddleware_bearer:
  assumes "is_bearer (Some h)" and "bearer_token h = Some token"
  shows "authMiddleware env (Some h) =
     (case verifyIdToken env token of
        Inl e \<Rightarrow> Responded unauthorized_invalid
      | Inr decodedToken \<Rightarrow>
          (case users_get env (uid decodedToken) of
             Inl e \<Rightarrow> Responded unauthorized_invalid
           | Inr None \<Rightarrow> Next decodedToken
           | Inr (Some userData) \<Rightarrow>
               if truthy (disabled userData) then
                 Responded (forbidden (js_or (disabledReason userData) default_reason))
               else Next decodedToken))"
  using assms unfolding authMiddleware_def by simp

lemma gate_verify_fails:
  assumes "is_bearer (Some h)" and "bearer_token h = Some token"
    and "verifyIdToken env token = Inl e"
  shows "authMiddleware env (Some h) = Responded unauthorized_invalid"
  by (simp add: authMiddleware_bearer [OF assms(1,2)] assms(3))

lemma gate_disabled:
  assumes "is_bearer (Some h)" and "bearer_token h = Some token"
    and "verifyIdToken env token = Inr d" and "users_get env (uid d) = Inr (Some u)"
    and "truthy (disabled u)"
  shows "authMiddleware env (Some h) = Responded (forbidden (js_or (disabledReason u) default_reason))"
  by (simp add: authMiddleware_bearer [OF assms(1,2)] assms(3,4,5))

lemma gate_no_record:
  assumes "is_bearer (Some h)" and "bearer_token h = Some token"
    and "verifyIdToken env token = Inr d" and "users_get env (uid d) = Inr None"
  shows "authMiddleware env (Some h) = Next d"
  by (simp add: authMiddleware_bearer [OF assms(1,2)] assms(3,4))

lemma gate_enabled:
  assumes "is_bearer (Some h)" and "bearer_token h = Some token"
    and "verifyIdToken env token = Inr d" and "users_get env (uid d) = Inr (Some u)"
    and "\<not> truthy (disabled u)"
  shows "authMiddleware env (Some h) = Next d"
  by (simp add: authMiddleware_bearer [OF assms(1,2)] assms(3,4,5))

text \<open>
  C1. For every request and every behaviour of the identity issuer and the record store:
  without a Bearer header the gate answers 401 and the handler does not run; with one, a
  token is extracted, and when its verification fails (whatever the cause) the gate
  answers 401; when it verifies and the user record exists with a truthy \<open>disabled\<close>
  field (in particular \<open>true\<close>) the gate answers 403 with the record's \<open>disabledReason\<close>,
  or the default text when that field is missing or empty, and the handler does not run;
  when it verifies and there is no user record, or the record's \<open>disabled\<close> field is
  falsy, the request goes on to the handler with the verified identity.
\<close>

theorem access_gate:
  "(\<not> is_bearer authHeader \<longrightarrow>
      gate_status (authMiddleware env authHeader) = Some 401
      \<and> \<not> handler_ran (authMiddleware env authHeader))
   \<and> (\<forall>h. authHeader = Some h \<and> is_bearer authHeader \<longrightarrow>
        (\<exists>token. bearer_token h = Some token
           \<and> (\<forall>e. verifyIdToken env token = Inl e \<longrightarrow>
                 gate_status (authMiddleware env authHeader) = Some 401
                 \<and> \<not> handler_ran (authMiddleware env authHeader))
           \<and> (\<forall>d u. verifyIdToken env token = Inr d \<and> users_get env (uid d) = Inr (Some u)
                     \<and> truthy (disabled u) \<longrightarrow>
                 gate_status (authMiddleware env authHeader) = Some 403
                 \<and> gate_reason (authMiddleware env authHeader)
                     = Some (if truthy (disabledReason u) then disabledReason u
                             else JStr ''Terms verification pending'')
                 \<and> \<not> handler_ran (authMiddleware env authHeader))
           \<and> (\<forall>d. verifyIdToken env token = Inr d \<and> users_get env (uid d) = Inr None \<longrightarrow>
                 authMiddleware env authHeader = Next d
                 \<and> handler_ran (authMiddleware env authHeader))
           \<and> (\<forall>d u. verifyIdToken env token = Inr d \<and> users_get env (uid d) = Inr (Some u)
                     \<and> \<not> truthy (disabled u) \<longrightarrow>
                 authMiddleware env authHeader = Next d
                 \<and> handler_ran (authMiddleware env authHeader))))"
proof (intro conjI allI impI, goal_cases)
  case 1
  then show ?case
    by (cases authHeader) (simp_all add: authMiddleware_def unauthorized_no_token_def)
next
  case 2
  then show ?case
    by (cases authHeader) (simp_all add: authMiddleware_def)
next
  case (3 h)
  then have b: "is_bearer (Some h)" and hd: "authHeader = Some h"
    by auto
  then have "startsWith h ''Bearer ''"
    by (simp add: is_bearer_def)
  then obtain token where t: "bearer_token h = Some token"
    using bearer_token_defined by blast
  show ?case
  proof (intro exI [of _ token] conjI allI impI)
    show "bearer_token h = Some token"
      by (rule t)
  next
    fix e
    assume "verifyIdToken env token = Inl e"
    then show "gate_status (authMiddleware env authHeader) = Some 401"
      and "\<not> handler_ran (authMiddleware env authHeader)"
      by (simp_all add: hd gate_verify_fails [OF b t] unauthorized_invalid_def)
  next
    fix d u
    assume "verifyIdToken env token = Inr d \<and> users_get env (uid d) = Inr (Some u)
              \<and> truthy (disabled u)"
    then have out: "authMiddleware env authHeader
                      = Responded (forbidden (js_or (disabledReason u) default_reason))"
      by (simp add: hd gate_disabled [OF b t])
    show "gate_status (authMiddleware env authHeader) = Some 403"
      and "gate_reason (authMiddleware env authHeader)
             = Some (if truthy (disabledReason u) then disabledReason u
                     else JStr ''Terms verification pending'')"
      and "\<not> handler_ran (authMiddleware env authHeader)"
      by (simp_all add: out forbidden_def js_or_def default_reason_def)
  next
    fix d
    assume "verifyIdToken env token = Inr d \<and> users_get env (uid d) = Inr None"
    then show "authMiddleware env authHeader = Next d"
      and "handler_ran (authMiddleware env authHeader)"
      by (simp_all add: hd gate_no_record [OF b t])
  next
    fix d u
    assume "verifyIdToken env token = Inr d \<and> users_get env (uid d) = Inr (Some u)
              \<and> \<not> truthy (disabled u)"
    then show "authMiddleware env authHeader = Next d"
      and "handler_ran (authMiddleware env authHeader)"
      by (simp_all add: hd gate_enabled [OF b t])
  qed
qed

lemma gate_tokens: "bearer_token ''Bearer good'' = Some ''good''" "bearer_token ''Bearer bad'' = Some ''bad''"
  "bearer_token ''Bearer new'' = Some ''new''" "bearer_token ''Bearer ok'' = Some ''ok''"
  by (simp_all add: bearer_token_def js_index_def)

text \<open>The gate at six concrete headers, one per case.\<close>

theorem access_gate_witness:
  "gate_status (authMiddleware gate_env None) = Some 401
   \<and> gate_status (authMiddleware gate_env (Some ''Basic abc'')) = Some 401
   \<and> gate_status (authMiddleware gate_env (Some ''Bearer bad'')) = Some 401
   \<and> gate_status (authMiddleware gate_env (Some ''Bearer good'')) = Some 403
   \<and> gate_reason (authMiddleware gate_env (Some ''Bearer good'')) = Some (JStr ''Terms verification pending'')
   \<and> \<not> handler_ran (authMiddleware gate_env (Some ''Bearer good''))
   \<and> authMiddleware gate_env (Some ''Bearer new'') = Next \<lparr>uid = ''u2''\<rparr>
   \<and> authMiddleware gate_env (Some ''Bearer ok'') = Next \<lparr>uid = ''u3''\<rparr>"
  using access_gate [of None gate_env] access_gate [of "Some ''Basic abc''" gate_env]
    access_gate [of "Some ''Bearer bad''" gate_env] access_gate [of "Some ''Bearer good''" gate_env]
    access_gate [of "Some ''Bearer new''" gate_env] access_gate [of "Some ''Bearer ok''" gate_env]
  by (simp add: is_bearer_def startsWith_def gate_tokens gate_env_def)

section \<open>Properties of the event classifier\<close>

lemma toLowerCase_F12: "toLowerCase ''F12'' = ''f12''"
  by (simp add: toLowerCase_def toLowerCase_char_def)

lemma toLowerCase_samples: "toLowerCase ''p'' = ''p''" "toLowerCase ''I'' = ''i''" "toLowerCase ''x'' = ''x''"
  by (simp_all add: toLowerCase_def toLowerCase_char_def)

text \<open>
  C2 as stated fails. Shift+F12 matches none of the listed combinations when the tenth
  rule is the bare F12 key (shift required absent), so the claim has it allowed; the
  handler tests F12 after the table without looking at any modifier and blocks it.
\<close>

theorem classify_shift_f12_counterexample:
  "spec_classify shift_f12 = Allow \<and> classify shift_f12 = Block ''devtools''"
  by (simp add: shift_f12_def spec_classify_def spec_rules_def spec_rule_matches_def
                classify_def blockedCombinations_def combo_matches_def toLowerCase_F12)

lemma classify_unfold:
  "classify e =
     (let k = toLowerCase (key e); c = isCtrl e; sh = shiftKey e in
      if c \<and> \<not> sh \<and> k = ''p'' then Block ''print''
      else if c \<and> \<not> sh \<and> k = ''s'' then Block ''save''
      else if c \<and> \<not> sh \<and> k = ''c'' then Block ''copy''
      else if c \<and> \<not> sh \<and> k = ''a'' then Block ''select_all''
      else if c \<and> \<not> sh \<and> k = ''u'' then Block ''view_source''
      else if c \<and> sh \<and> k = ''i'' then Block ''devtools''
      else if c \<and> sh \<and> k = ''j'' then Block ''devtools''
      else if c \<and> sh \<and> k = ''c'' then Block ''devtools''
      else if c \<and> sh \<and> k = ''s'' then Block ''screenshot''
      else if key e = ''F12'' then Block ''devtools''
      else Allow)"
  by (simp add: classify_def blockedCombinations_def combo_matches_def Let_def)

text \<open>
  C2, amended. With control-or-meta held and shift absent, the (lower-cased) keys p, s,
  c, a, u are blocked as print, save, copy, select_all, view_source; with control-or-meta
  and shift both held, i, j, c are blocked as devtools and s as screenshot; the key F12
  (compared as reported, not lower-cased) is blocked as devtools whatever the modifiers;
  every other descriptor is allowed.
\<close>

theorem classify_amended:
  "(isCtrl e \<and> \<not> shiftKey e \<and> toLowerCase (key e) = ''p'' \<longrightarrow> classify e = Block ''print'')
   \<and> (isCtrl e \<and> \<not> shiftKey e \<and> toLowerCase (key e) = ''s'' \<longrightarrow> classify e = Block ''save'')
   \<and> (isCtrl e \<and> \<not> shiftKey e \<and> toLowerCase (key e) = ''c'' \<longrightarrow> classify e = Block ''copy'')
   \<and> (isCtrl e \<and> \<not> shiftKey e \<and> toLowerCase (key e) = ''a'' \<longrightarrow> classify e = Block ''select_all'')
   \<and> (isCtrl e \<and> \<not> shiftKey e \<and> toLowerCase (key e) = ''u'' \<longrightarrow> classify e = Block ''view_source'')
   \<and> (isCtrl e \<and> shiftKey e \<and> toLowerCase (key e) \<in> {''i'', ''j'', ''c''} \<longrightarrow> classify e = Block ''devtools'')
   \<and> (isCtrl e \<and> shiftKey e \<and> toLowerCase (key e) = ''s'' \<longrightarrow> classify e = Block ''screenshot'')
   \<and> (key e = ''F12'' \<longrightarrow> classify e = Block ''devtools'')
   \<and> (\<not> (isCtrl e \<and> \<not> shiftKey e \<and> toLowerCase (key e) \<in> {''p'', ''s'', ''c'', ''a'', ''u''})
       \<and> \<not> (isCtrl e \<and> shiftKey e \<and> toLowerCase (key e) \<in> {''i'', ''j'', ''c'', ''s''})
       \<and> key e \<noteq> ''F12'' \<longrightarrow> classify e = Allow)"
proof (intro conjI impI, goal_cases)
  case 8
  then show ?case
    by (simp add: classify_unfold Let_def toLowerCase_F12)
qed (auto simp: classify_unfold Let_def)

text \<open>The classifier at four descriptors.\<close>

theorem classify_amended_witness:
  "classify ctrl_p = Block ''print'' \<and> classify meta_shift_i = Block ''devtools''
   \<and> classify shift_f12 = Block ''devtools'' \<and> classify plain_x = Allow"
  using classify_amended [of ctrl_p] classify_amended [of meta_shift_i]
    classify_amended [of shift_f12] classify_amended [of plain_x]
  by (simp add: ctrl_p_def meta_shift_i_def shift_f12_def plain_x_def isCtrl_def
                toLowerCase_samples toLowerCase_F12)

section \<open>Timers: what passing time can change\<close>

lemmas helper_defs =
  setTimeout_def hideContentInstantly_def showContent_def logEvent_def showViolation_def
  writeText_def tryClearClipboard_def

lemmas handler_defs =
  handleContextMenu_def printScreenDown_def handleKeyDown_def handleKeyUp_def handleFocus_def
  handleBlur_def handleVisibilityChange_def checkDevTools_def handleResize_def handleCopy_def

lemma earliest_in_set: "earliest xs = Some x \<Longrightarrow> x \<in> set xs"
  by (induction xs arbitrary: x) (auto split: option.splits if_splits)

lemma earliest_None: "earliest xs = None \<longleftrightarrow> xs = []"
  by (induction xs) (auto split: option.splits)

lemma earliest_least: "earliest xs = Some x \<Longrightarrow> y \<in> set xs \<Longrightarrow> fst x \<le> fst y"
  by (induction xs arbitrary: x) (fastforce split: option.splits if_splits simp: earliest_None)+

lemma run_callback_violation:
  "securityViolation (run_callback cb s) = (if cb = ClearViolation then None else securityViolation s)"
  by (cases cb)
     (simp_all add: run_callback_def fire_def showContent_def setTimeout_def restoreStyle_def
               split: option.splits)

lemma run_callback_timers:
  "set (timers (run_callback cb s)) \<subseteq> insert (now s + 100, RestoreStyle) (set (timers s))"
  "set (timers s) \<subseteq> set (timers (run_callback cb s))"
  by (cases cb;
      auto simp: run_callback_def fire_def showContent_def setTimeout_def restoreStyle_def
           split: option.splits)+

lemma run_callback_frame:
  "emitted (run_callback cb s) = emitted s"
  "devToolsOpen (run_callback cb s) = devToolsOpen s"
  "isFocused (run_callback cb s) = isFocused s"
  "triggerCount (run_callback cb s) = triggerCount s"
  "now (run_callback cb s) = now s"
  by (cases cb;
      simp add: run_callback_def fire_def showContent_def setTimeout_def restoreStyle_def
           split: option.splits)+

lemma advance_preserves:
  assumes "P s"
    and step: "\<And>s d cb. P s \<Longrightarrow> (d, cb) \<in> set (timers s) \<Longrightarrow>
             P (run_callback cb (s\<lparr>timers := remove1 (d, cb) (timers s), now := max (now s) d\<rparr>))"
    and clock: "\<And>s n. P s \<Longrightarrow> P (s\<lparr>now := n\<rparr>)"
  shows "P (advance t s)"
  using assms(1)
proof (induction t s rule: advance.induct)
  case (1 t s)
  show ?case
  proof (cases "earliest (timers s)")
    case None
    then show ?thesis
      using "1.prems" by (simp add: advance.simps [of t s] clock)
  next
    case (Some x)
    obtain due cb where x: "x = (due, cb)"
      by (cases x)
    show ?thesis
    proof (cases "due \<le> t")
      case True
      have "P (run_callback cb (s\<lparr>timers := remove1 (due, cb) (timers s), now := max (now s) due\<rparr>))"
        using "1.prems" Some x by (intro step) (simp_all add: earliest_in_set)
      then have "P (advance t (run_callback cb (s\<lparr>timers := remove1 (due, cb) (timers s), now := max (now s) due\<rparr>)))"
        using "1.IH" [OF Some x [symmetric] True] by simp
      then show ?thesis
        using Some x True by (simp add: advance.simps [of t s])
    next
      case False
      then show ?thesis
        using "1.prems" Some x by (simp add: advance.simps [of t s] clock)
    qed
  qed
qed

lemma advance_frame:
  "emitted (advance t s) = emitted s"
  "devToolsOpen (advance t s) = devToolsOpen s"
  "isFocused (advance t s) = isFocused s"
  "triggerCount (advance t s) = triggerCount s"
proof -
  show "emitted (advance t s) = emitted s"
    by (rule advance_preserves [where P = "\<lambda>s'. emitted s' = emitted s"])
       (simp_all add: run_callback_frame)
  show "devToolsOpen (advance t s) = devToolsOpen s"
    by (rule advance_preserves [where P = "\<lambda>s'. devToolsOpen s' = devToolsOpen s"])
       (simp_all add: run_callback_frame)
  show "isFocused (advance t s) = isFocused s"
    by (rule advance_preserves [where P = "\<lambda>s'. isFocused s' = isFocused s"])
       (simp_all add: run_callback_frame)
  show "triggerCount (advance t s) = triggerCount s"
    by (rule advance_preserves [where P = "\<lambda>s'. triggerCount s' = triggerCount s"])
       (simp_all add: run_callback_frame)
qed

text \<open>No callback sets a message: a banner that is gone stays gone while time passes.\<close>

lemma advance_no_violation:
  "securityViolation s = None \<Longrightarrow> securityViolation (advance t s) = None"
  by (rule advance_preserves [where P = "\<lambda>s'. securityViolation s' = None"])
     (simp_all add: run_callback_violation)

lemma advance_message_nonempty:
  "securityViolation s \<noteq> Some [] \<Longrightarrow> securityViolation (advance t s) \<noteq> Some []"
  by (rule advance_preserves [where P = "\<lambda>s'. securityViolation s' \<noteq> Some []"])
     (simp_all add: run_callback_violation)

lemma advance_now: "now (advance t s) = max (now s) t"
proof (induction t s rule: advance.induct)
  case (1 t s)
  show ?case
  proof (cases "earliest (timers s)")
    case None
    then show ?thesis
      by (simp add: advance.simps [of t s])
  next
    case (Some x)
    obtain due cb where x: "x = (due, cb)"
      by (cases x)
    show ?thesis
    proof (cases "due \<le> t")
      case True
      then show ?thesis
        using "1.IH" [OF Some x [symmetric] True] Some x
        by (simp add: advance.simps [of t s] run_callback_frame)
    next
      case False
      then show ?thesis
        using Some x by (simp add: advance.simps [of t s])
    qed
  qed
qed

text \<open>While no pending clearing is due, passing time leaves the banner as it is.\<close>

lemma advance_before_clear:
  "\<forall>d. (d, ClearViolation) \<in> set (timers s) \<longrightarrow> t < d \<Longrightarrow>
   securityViolation (advance t s) = securityViolation s"
proof (induction t s rule: advance.induct)
  case (1 t s)
  show ?case
  proof (cases "earliest (timers s)")
    case None
    then show ?thesis
      by (simp add: advance.simps [of t s])
  next
    case (Some x)
    obtain due cb where x: "x = (due, cb)"
      by (cases x)
    show ?thesis
    proof (cases "due \<le> t")
      case True
      let ?s' = "s\<lparr>timers := remove1 (due, cb) (timers s), now := max (now s) due\<rparr>"
      have mem: "(due, cb) \<in> set (timers s)"
        using Some x by (simp add: earliest_in_set)
      with True "1.prems" have cb: "cb \<noteq> ClearViolation"
        by auto
      have "\<forall>d. (d, ClearViolation) \<in> set (timers (run_callback cb ?s')) \<longrightarrow> t < d"
      proof (intro allI impI)
        fix d
        assume "(d, ClearViolation) \<in> set (timers (run_callback cb ?s'))"
        then have "(d, ClearViolation) \<in> set (timers ?s')"
          using run_callback_timers(1) [of cb ?s'] by auto
        then have "(d, ClearViolation) \<in> set (timers s)"
          using set_remove1_subset [of "(due, cb)" "timers s"] by auto
        then show "t < d"
          using "1.prems" by simp
      qed
      then have "securityViolation (advance t (run_callback cb ?s'))
                   = securityViolation (run_callback cb ?s')"
        by (rule "1.IH" [OF Some x [symmetric] True])
      then show ?thesis
        using Some x True cb by (simp add: advance.simps [of t s] run_callback_violation)
    next
      case False
      then show ?thesis
        using Some x by (simp add: advance.simps [of t s])
    qed
  qed
qed

text \<open>Once a pending clearing is due, the banner is gone.\<close>

lemma advance_after_clear:
  "(d, ClearViolation) \<in> set (timers s) \<Longrightarrow> d \<le> t \<Longrightarrow> securityViolation (advance t s) = None"
proof (induction t s rule: advance.induct)
  case (1 t s)
  from "1.prems" obtain x where Some: "earliest (timers s) = Some x"
    by (cases "earliest (timers s)") (auto simp: earliest_None)
  obtain due cb where x: "x = (due, cb)"
    by (cases x)
  let ?s' = "s\<lparr>timers := remove1 (due, cb) (timers s), now := max (now s) due\<rparr>"
  have "due \<le> d"
    using earliest_least [OF Some "1.prems"(1)] x by simp
  with "1.prems" have True: "due \<le> t"
    by simp
  have unfold: "advance t s = advance t (run_callback cb ?s')"
    using Some x True by (simp add: advance.simps [of t s])
  show ?case
  proof (cases "(due, cb) = (d, ClearViolation)")
    case True
    then have "securityViolation (run_callback cb ?s') = None"
      by (simp add: run_callback_violation)
    then show ?thesis
      by (simp add: unfold advance_no_violation)
  next
    case False
    with "1.prems" have "(d, ClearViolation) \<in> set (timers ?s')"
      using in_set_remove1 [of "(d, ClearViolation)" "(due, cb)" "timers s"] by auto
    then have "(d, ClearViolation) \<in> set (timers (run_callback cb ?s'))"
      using run_callback_timers(2) [of ?s' cb] by blast
    then show ?thesis
      using "1.IH" [OF Some x [symmetric] \<open>due \<le> t\<close>] "1.prems"(2) by (simp add: unfold)
  qed
qed

section \<open>Properties of the security monitor\<close>

subsection \<open>The aggregate flag and the violation banner\<close>

lemma helper_violation:
  "securityViolation (setTimeout cb ms s) = securityViolation s"
  "securityViolation (hideContentInstantly s) = securityViolation s"
  "securityViolation (showContent s) = securityViolation s"
  "securityViolation (logEvent ev s) = securityViolation s"
  "securityViolation (tryClearClipboard s) = securityViolation s"
  "securityViolation (showViolation m s) = Some m"
  by (simp_all add: helper_defs split: option.splits clipboard_api.splits)

lemma handler_violation:
  "securityViolation (handleContextMenu s) = Some ''Right-click is disabled''"
  "securityViolation (printScreenDown s) = Some ''Screenshots are disabled''"
  "securityViolation (handleKeyUp e s) = securityViolation s"
  "securityViolation (handleFocus s) = securityViolation s"
  "securityViolation (handleBlur s) = securityViolation s"
  "securityViolation (handleVisibilityChange s) = securityViolation s"
  "securityViolation (checkDevTools sm s) = securityViolation s"
  "securityViolation (handleResize w h s) = securityViolation s"
  "securityViolation (handleCopy s) = Some ''Copying is disabled''"
  by (simp_all add: handler_defs helper_violation Let_def)

lemma keyup_listeners_violation:
  "securityViolation ((handleKeyUp e ^^ n) s) = securityViolation s"
  by (induction n) (simp_all add: handler_violation)

lemma handleKeyDown_message_nonempty:
  "securityViolation s \<noteq> Some [] \<Longrightarrow> securityViolation (handleKeyDown e s) \<noteq> Some []"
  by (simp add: handleKeyDown_def helper_violation handler_violation split: option.splits)

lemma dispatch_message_nonempty:
  "securityViolation s \<noteq> Some [] \<Longrightarrow> securityViolation (dispatch ev s) \<noteq> Some []"
  by (cases ev)
     (simp_all add: dispatch_def handler_violation keyup_listeners_violation
                    handleKeyDown_message_nonempty)

lemma run_message_nonempty:
  "securityViolation s \<noteq> Some [] \<Longrightarrow> securityViolation (run evs s) \<noteq> Some []"
proof (induction evs arbitrary: s)
  case Nil
  then show ?case by simp
next
  case (Cons a evs)
  obtain t ev where a: "a = (t, ev)"
    by (cases a)
  from Cons.prems have "securityViolation (dispatch ev (advance t s)) \<noteq> Some []"
    by (intro dispatch_message_nonempty advance_message_nonempty)
  then show ?case
    using Cons.IH a by simp
qed

text \<open>
  C3. In every state the viewer reaches from its mount, whatever the events of the layers
  (focus, blur, visibility, DevTools checks, violations raised by any layer) and their
  times, and at whatever time it is looked at, the aggregate flag equals
  \<open>isFocused\<close> and not \<open>devToolsOpen\<close> and no violation message; it is computed from
  the three sub-flags of the current state alone.
\<close>

theorem isSecure_invariant:
  "isSecure (advance t (run evs (init c api w h)))
     = (isFocused (advance t (run evs (init c api w h)))
        \<and> \<not> devToolsOpen (advance t (run evs (init c api w h)))
        \<and> securityViolation (advance t (run evs (init c api w h))) = None)"
proof -
  have "securityViolation (init c api w h) \<noteq> Some []"
    by (simp add: init_def)
  then have "securityViolation (advance t (run evs (init c api w h))) \<noteq> Some []"
    by (intro advance_message_nonempty run_message_nonempty)
  then show ?thesis
    by (cases "securityViolation (advance t (run evs (init c api w h)))")
       (simp_all add: isSecure_def)
qed

lemma two_violations_flags:
  "isFocused (advance 2999 (run two_violations viewer))"
  "\<not> devToolsOpen (advance 2999 (run two_violations viewer))"
  "securityViolation (advance 2999 (run two_violations viewer)) = Some ''Copying is disabled''"
  "isFocused (advance 3000 (run two_violations viewer))"
  "\<not> devToolsOpen (advance 3000 (run two_violations viewer))"
  "securityViolation (advance 3000 (run two_violations viewer)) = None"
  by code_simp+

text \<open>
  After a right-click and a copy the viewer is not secure while the banner shows, and
  secure again once it is cleared.
\<close>

theorem isSecure_invariant_witness:
  "\<not> isSecure (advance 2999 (run two_violations viewer))
   \<and> isSecure (advance 3000 (run two_violations viewer))"
  using isSecure_invariant [of 2999 two_violations "Some \<lparr>opacity = ''1'', css_filter = ''none''\<rparr>"
                              ClipboardWrites 1280 800]
    isSecure_invariant [of 3000 two_violations "Some \<lparr>opacity = ''1'', css_filter = ''none''\<rparr>"
                          ClipboardWrites 1280 800]
  by (simp add: viewer_def [symmetric] two_violations_flags)

text \<open>
  C4 as stated fails. A right-click at 0 ms and a copy at 1000 ms: the second message is
  shown, but the timer of the first violation is still pending and clears the banner at
  3000 ms, 2000 ms after the second violation was raised instead of 3000 ms.
\<close>

theorem banner_cleared_early_counterexample:
  "securityViolation (advance 2999 (run two_violations viewer)) = Some ''Copying is disabled''
   \<and> securityViolation (advance 3000 (run two_violations viewer)) = None
   \<and> securityViolation (advance 3999 (run two_violations viewer)) = None"
  by code_simp

lemma showViolation_timers:
  "timers (showViolation m s) = timers s @ [(now s + 3000, ClearViolation)]"
  by (simp add: showViolation_def setTimeout_def)

text \<open>
  C4, amended. A violation sets the banner to its message, replacing any message shown
  (one banner at a time, no queue), and schedules a clearing 3000 ms later; no pending
  clearing is ever cancelled. So the message is visible at every time before both its
  own clearing and every clearing still pending from earlier violations; it is gone from
  3000 ms after it was raised; and it is already gone from the time an earlier pending
  clearing falls due.
\<close>

theorem violation_banner_timing:
  "(t < now s + 3000 \<and> (\<forall>d. (d, ClearViolation) \<in> set (timers s) \<longrightarrow> t < d) \<longrightarrow>
      securityViolation (advance t (showViolation m s)) = Some m)
   \<and> (now s + 3000 \<le> t \<longrightarrow> securityViolation (advance t (showViolation m s)) = None)
   \<and> (\<forall>d. (d, ClearViolation) \<in> set (timers s) \<and> d \<le> t \<longrightarrow>
         securityViolation (advance t (showViolation m s)) = None)"
proof (intro conjI impI allI)
  assume "t < now s + 3000 \<and> (\<forall>d. (d, ClearViolation) \<in> set (timers s) \<longrightarrow> t < d)"
  then have "\<forall>d. (d, ClearViolation) \<in> set (timers (showViolation m s)) \<longrightarrow> t < d"
    by (auto simp: showViolation_timers)
  then show "securityViolation (advance t (showViolation m s)) = Some m"
    by (simp add: advance_before_clear helper_violation)
next
  assume "now s + 3000 \<le> t"
  then show "securityViolation (advance t (showViolation m s)) = None"
    by (intro advance_after_clear [of "now s + 3000"]) (simp_all add: showViolation_timers)
next
  fix d
  assume "(d, ClearViolation) \<in> set (timers s) \<and> d \<le> t"
  then show "securityViolation (advance t (showViolation m s)) = None"
    by (intro advance_after_clear [of d]) (simp_all add: showViolation_timers)
qed

lemma after_first_violation:
  "timers (advance 1000 (showViolation ''Right-click is disabled'' viewer)) = [(3000, ClearViolation)]"
  "now (advance 1000 (showViolation ''Right-click is disabled'' viewer)) = 1000"
  by code_simp+

text \<open>
  A lone violation is visible at 2999 ms and gone at 3000 ms; one raised at 1000 ms while
  the clearing of a violation raised at 0 ms is pending is gone at 3000 ms.
\<close>

theorem violation_banner_timing_witness:
  "securityViolation (advance 2999 (showViolation ''Copying is disabled'' viewer))
     = Some ''Copying is disabled''
   \<and> securityViolation (advance 3000 (showViolation ''Copying is disabled'' viewer)) = None
   \<and> securityViolation
        (advance 3000
           (showViolation ''Copying is disabled''
              (advance 1000 (showViolation ''Right-click is disabled'' viewer)))) = None"
  using violation_banner_timing [of 2999 viewer "''Copying is disabled''"]
    violation_banner_timing [of 3000 viewer "''Copying is disabled''"]
    violation_banner_timing [of 3000 "advance 1000 (showViolation ''Right-click is disabled'' viewer)"
                                "''Copying is disabled''"]
  by (simp add: after_first_violation) (simp add: viewer_def init_def)

subsection \<open>DevTools verdict\<close>

lemma poll_while_open:
  "devToolsOpen s \<Longrightarrow> isOpen sm \<Longrightarrow> dispatch (Poll sm) (advance t s) = advance t s"
  by (simp add: dispatch_def checkDevTools_def advance_frame)

lemma polls_while_open:
  "devToolsOpen s \<Longrightarrow> \<forall>(t, sm) \<in> set tss. isOpen sm \<Longrightarrow>
   emitted (run (polls tss) s) = emitted s \<and> devToolsOpen (run (polls tss) s)"
proof (induction tss arbitrary: s)
  case Nil
  then show ?case by (simp add: polls_def)
next
  case (Cons a tss)
  obtain t sm where a: "a = (t, sm)"
    by (cases a)
  with Cons.prems have o: "isOpen sm" and rest: "\<forall>(t, sm) \<in> set tss. isOpen sm"
    by auto
  have step: "run (polls (a # tss)) s = run (polls tss) (advance t s)"
    using poll_while_open [OF Cons.prems(1) o, of t] by (simp add: polls_def a)
  have "devToolsOpen (advance t s)"
    using Cons.prems(1) by (simp add: advance_frame)
  from Cons.IH [OF this rest] show ?case
    by (simp add: step advance_frame)
qed

lemma first_poll_open:
  "\<not> devToolsOpen s \<Longrightarrow> isOpen sm \<Longrightarrow>
   dispatch (Poll sm) (advance t s)
     = logEvent (DEVTOOLS_DETECTED (detection_method sm)) ((advance t s)\<lparr>devToolsOpen := True\<rparr>)"
  by (simp add: dispatch_def checkDevTools_def advance_frame)

text \<open>
  C6. Starting from a state in which DevTools is not suspected, any number of consecutive
  checks (at any times, with timers firing in between) in each of which at least one of
  the three signals is true emit exactly one \<open>DEVTOOLS_DETECTED\<close> event: the one of
  the first check, stamped with its time and naming the first true signal in the order
  geometry (size), console timing (console), debugger pause (debugger); the verdict stays
  set. A check with no signal true on a suspected state only resets the verdict and emits
  nothing.
\<close>

theorem devtools_edge_triggered:
  "(\<not> devToolsOpen s \<and> isOpen sm \<and> (\<forall>(t, sm') \<in> set tss. isOpen sm') \<longrightarrow>
      emitted (run (polls ((t0, sm) # tss)) s)
        = emitted s @ [(max (now s) t0, DEVTOOLS_DETECTED (detection_method sm))]
      \<and> devToolsOpen (run (polls ((t0, sm) # tss)) s)
      \<and> detection_method sm
          = (if outerWidth sm - innerWidth sm > 160 \<or> outerHeight sm - innerHeight sm > 160
             then ''size'' else if duration sm > 100 then ''console'' else ''debugger''))
   \<and> (devToolsOpen s \<and> \<not> isOpen sm \<longrightarrow>
        dispatch (Poll sm) s = s\<lparr>devToolsOpen := False\<rparr>
        \<and> emitted (dispatch (Poll sm) s) = emitted s)"
proof (intro conjI impI)
  assume a: "\<not> devToolsOpen s \<and> isOpen sm \<and> (\<forall>(t, sm') \<in> set tss. isOpen sm')"
  let ?s1 = "dispatch (Poll sm) (advance t0 s)"
  have s1: "?s1 = logEvent (DEVTOOLS_DETECTED (detection_method sm))
                    ((advance t0 s)\<lparr>devToolsOpen := True\<rparr>)"
    using a by (simp add: first_poll_open)
  have open1: "devToolsOpen ?s1"
    by (simp add: s1 logEvent_def)
  have em1: "emitted ?s1 = emitted s @ [(max (now s) t0, DEVTOOLS_DETECTED (detection_method sm))]"
    by (simp add: s1 logEvent_def advance_frame advance_now)
  have run: "run (polls ((t0, sm) # tss)) s = run (polls tss) ?s1"
    by (simp add: polls_def)
  from a have rest: "\<forall>(t, sm') \<in> set tss. isOpen sm'"
    by simp
  show "emitted (run (polls ((t0, sm) # tss)) s)
          = emitted s @ [(max (now s) t0, DEVTOOLS_DETECTED (detection_method sm))]"
    and "devToolsOpen (run (polls ((t0, sm) # tss)) s)"
    using polls_while_open [OF open1 rest] by (simp_all add: run em1)
  show "detection_method sm
          = (if outerWidth sm - innerWidth sm > 160 \<or> outerHeight sm - innerHeight sm > 160
             then ''size'' else if duration sm > 100 then ''console'' else ''debugger'')"
    by (simp add: detection_method_def devToolsOpen1_def devToolsOpen2_def)
next
  assume "devToolsOpen s \<and> \<not> isOpen sm"
  then show "dispatch (Poll sm) s = s\<lparr>devToolsOpen := False\<rparr>"
    and "emitted (dispatch (Poll sm) s) = emitted s"
    by (simp_all add: dispatch_def checkDevTools_def)
qed

lemma sample_verdicts:
  "isOpen geometry_sample" "isOpen timing_sample" "\<not> isOpen quiet_sample"
  "detection_method geometry_sample = ''size''" "detection_method timing_sample = ''console''"
  by (simp_all add: isOpen_def devToolsOpen1_def devToolsOpen2_def devToolsOpen3_def
        detection_method_def geometry_sample_def timing_sample_def quiet_sample_def)

text \<open>
  Three checks with a signal true, the first by console timing alone: one event, named
  console. A quiet check on a suspected state: no event.
\<close>

theorem devtools_edge_triggered_witness:
  "emitted (run (polls [(0, timing_sample), (1000, geometry_sample), (2000, timing_sample)]) viewer)
     = [(0, DEVTOOLS_DETECTED ''console'')]
   \<and> emitted (dispatch (Poll quiet_sample) (viewer\<lparr>devToolsOpen := True\<rparr>)) = []"
  using devtools_edge_triggered [of viewer timing_sample "[(1000, geometry_sample), (2000, timing_sample)]" 0]
    devtools_edge_triggered [of "viewer\<lparr>devToolsOpen := True\<rparr>" quiet_sample "[]" 0]
  by (simp add: sample_verdicts viewer_def init_def)

subsection \<open>PrintScreen\<close>

lemma PrintScreen_not_in_table: "key e = ''PrintScreen'' \<Longrightarrow> first_match e blockedCombinations = None"
  by (simp add: blockedCombinations_def combo_matches_def toLowerCase_def)

lemma handleKeyDown_PrintScreen: "key e = ''PrintScreen'' \<Longrightarrow> handleKeyDown e s = printScreenDown s"
  by (simp add: handleKeyDown_def PrintScreen_not_in_table)

text \<open>
  C5 as stated fails. On the mounted viewer the PrintScreen keydown emits
  \<open>PRINTSCREEN_BLOCKED\<close> and raises the violation; the PrintScreen keyup emits no
  event and raises no violation.
\<close>

theorem printscreen_keyup_counterexample:
  "emitted (dispatch (KeyDown printscreen_key) viewer) = [(0, PRINTSCREEN_BLOCKED)]
   \<and> securityViolation (dispatch (KeyDown printscreen_key) viewer) = Some ''Screenshots are disabled''
   \<and> emitted (dispatch (KeyUp printscreen_key) viewer) = []
   \<and> securityViolation (dispatch (KeyUp printscreen_key) viewer) = None"
  by (simp add: dispatch_def handleKeyDown_PrintScreen printscreen_key_def printScreenDown_def
        handleKeyUp_def helper_defs viewer_def init_def)

text \<open>
  C5, amended. On a PrintScreen keydown the keyboard layer hides the content at once,
  attempts the clipboard overwrite (a failure of the call is caught and nothing is
  thrown), emits \<open>PRINTSCREEN_BLOCKED\<close>, raises the violation
  "Screenshots are disabled" with its 3000 ms clearing and schedules \<open>showContent\<close>
  after 2000 ms. On a PrintScreen keyup it hides the content at once, attempts the
  clipboard overwrite in the same way and schedules \<open>showContent\<close> after 2000 ms; it
  emits no event, does not count a trigger and leaves the violation banner as it is.
\<close>

theorem printscreen_handling:
  "key e = ''PrintScreen'' \<longrightarrow>
     content (handleKeyDown e s) = hidden (content s)
     \<and> clipboardText (handleKeyDown e s) = overwritten s
     \<and> uncaught (handleKeyDown e s) = uncaught s
     \<and> emitted (handleKeyDown e s) = emitted s @ [(now s, PRINTSCREEN_BLOCKED)]
     \<and> triggerCount (handleKeyDown e s) = Suc (triggerCount s)
     \<and> securityViolation (handleKeyDown e s) = Some ''Screenshots are disabled''
     \<and> timers (handleKeyDown e s)
         = timers s @ [(now s + 3000, ClearViolation), (now s + 2000, ShowContent)]
     \<and> content (handleKeyUp e s) = hidden (content s)
     \<and> clipboardText (handleKeyUp e s) = overwritten s
     \<and> uncaught (handleKeyUp e s) = uncaught s
     \<and> emitted (handleKeyUp e s) = emitted s
     \<and> triggerCount (handleKeyUp e s) = triggerCount s
     \<and> securityViolation (handleKeyUp e s) = securityViolation s
     \<and> timers (handleKeyUp e s) = timers s @ [(now s + 2000, ShowContent)]"
proof
  assume k: "key e = ''PrintScreen''"
  have down: "handleKeyDown e s = printScreenDown s"
    using k by (rule handleKeyDown_PrintScreen)
  have up: "handleKeyUp e s = setTimeout ShowContent 2000 (tryClearClipboard (hideContentInstantly s))"
    using k by (simp add: handleKeyUp_def)
  show "content (handleKeyDown e s) = hidden (content s)
     \<and> clipboardText (handleKeyDown e s) = overwritten s
     \<and> uncaught (handleKeyDown e s) = uncaught s
     \<and> emitted (handleKeyDown e s) = emitted s @ [(now s, PRINTSCREEN_BLOCKED)]
     \<and> triggerCount (handleKeyDown e s) = Suc (triggerCount s)
     \<and> securityViolation (handleKeyDown e s) = Some ''Screenshots are disabled''
     \<and> timers (handleKeyDown e s)
         = timers s @ [(now s + 3000, ClearViolation), (now s + 2000, ShowContent)]
     \<and> content (handleKeyUp e s) = hidden (content s)
     \<and> clipboardText (handleKeyUp e s) = overwritten s
     \<and> uncaught (handleKeyUp e s) = uncaught s
     \<and> emitted (handleKeyUp e s) = emitted s
     \<and> triggerCount (handleKeyUp e s) = triggerCount s
     \<and> securityViolation (handleKeyUp e s) = securityViolation s
     \<and> timers (handleKeyUp e s) = timers s @ [(now s + 2000, ShowContent)]"
    unfolding down up
    by (cases "content s"; cases "clipboardApi s")
       (simp_all add: printScreenDown_def helper_defs hidden_def overwritten_def)
qed

text \<open>
  Both handlers on the mounted viewer.
\<close>

theorem printscreen_handling_witness:
  "emitted (handleKeyDown printscreen_key viewer) = [(0, PRINTSCREEN_BLOCKED)]
   \<and> timers (handleKeyDown printscreen_key viewer) = [(3000, ClearViolation), (2000, ShowContent)]
   \<and> emitted (handleKeyUp printscreen_key viewer) = []
   \<and> timers (handleKeyUp printscreen_key viewer) = [(2000, ShowContent)]
   \<and> content (handleKeyUp printscreen_key viewer) = Some \<lparr>opacity = ''0'', css_filter = ''blur(50px)''\<rparr>"
  using printscreen_handling [of printscreen_key viewer]
  by (simp add: printscreen_key_def viewer_def init_def hidden_def)

subsection \<open>Focus\<close>

lemma run_callback_browser_view:
  "windowHasFocus (run_callback cb s) = windowHasFocus s"
  "documentHidden (run_callback cb s) = documentHidden s"
  by (cases cb;
      simp add: run_callback_def fire_def showContent_def setTimeout_def restoreStyle_def
           split: option.splits)+

lemma advance_browser_view:
  "windowHasFocus (advance t s) = windowHasFocus s"
  "documentHidden (advance t s) = documentHidden s"
proof -
  show "windowHasFocus (advance t s) = windowHasFocus s"
    by (rule advance_preserves [where P = "\<lambda>s'. windowHasFocus s' = windowHasFocus s"])
       (simp_all add: run_callback_browser_view)
  show "documentHidden (advance t s) = documentHidden s"
    by (rule advance_preserves [where P = "\<lambda>s'. documentHidden s' = documentHidden s"])
       (simp_all add: run_callback_browser_view)
qed

text \<open>
  C10. In any state, the notification that the document became visible sets
  \<open>isFocused\<close> and calls \<open>showContent\<close>, which schedules the restore 100 ms later
  when the protected element is there, and it leaves the window's own focus as it was;
  so after a window blur followed by that notification \<open>isFocused\<close> holds although
  the window has no focus. In the same way a window focus event sets \<open>isFocused\<close> and
  schedules the restore whether or not the document is hidden; after the document was
  hidden and the window then got focus, \<open>isFocused\<close> holds although the document is
  still hidden. The flag follows the last signal, not the conjunction of the two.
\<close>

theorem isFocused_last_signal_wins:
  "isFocused (dispatch (VisibilityChange False) s)
   \<and> windowHasFocus (dispatch (VisibilityChange False) s) = windowHasFocus s
   \<and> (content s \<noteq> None \<longrightarrow>
        timers (dispatch (VisibilityChange False) s) = timers s @ [(now s + 100, RestoreStyle)])
   \<and> isFocused (dispatch Focus s)
   \<and> documentHidden (dispatch Focus s) = documentHidden s
   \<and> (content s \<noteq> None \<longrightarrow>
        timers (dispatch Focus s) = timers s @ [(now s + 100, RestoreStyle)])
   \<and> isFocused (run [(t1, Blur), (t2, VisibilityChange False)] s)
   \<and> \<not> windowHasFocus (run [(t1, Blur), (t2, VisibilityChange False)] s)
   \<and> isFocused (run [(t1, VisibilityChange True), (t2, Focus)] s)
   \<and> documentHidden (run [(t1, VisibilityChange True), (t2, Focus)] s)"
proof (intro conjI impI)
  show "isFocused (dispatch (VisibilityChange False) s)"
    and "windowHasFocus (dispatch (VisibilityChange False) s) = windowHasFocus s"
    and "isFocused (dispatch Focus s)"
    and "documentHidden (dispatch Focus s) = documentHidden s"
    by (cases "content s";
        simp add: dispatch_def handleVisibilityChange_def handleFocus_def showContent_def
                  setTimeout_def)+
  show "timers (dispatch (VisibilityChange False) s) = timers s @ [(now s + 100, RestoreStyle)]"
    and "timers (dispatch Focus s) = timers s @ [(now s + 100, RestoreStyle)]"
    if "content s \<noteq> None"
    using that
    by (auto simp: dispatch_def handleVisibilityChange_def handleFocus_def showContent_def
                   setTimeout_def)
  have blur: "\<not> windowHasFocus (dispatch Blur s')" for s'
    by (cases "content s'")
       (simp_all add: dispatch_def handleBlur_def logEvent_def hideContentInstantly_def)
  have hide: "documentHidden (dispatch (VisibilityChange True) s')" for s'
    by (cases "content s'")
       (simp_all add: dispatch_def handleVisibilityChange_def logEvent_def hideContentInstantly_def)
  have vis: "isFocused (dispatch (VisibilityChange False) s')
               \<and> windowHasFocus (dispatch (VisibilityChange False) s') = windowHasFocus s'" for s'
    by (cases "content s'")
       (simp_all add: dispatch_def handleVisibilityChange_def showContent_def setTimeout_def)
  have foc: "isFocused (dispatch Focus s')
               \<and> documentHidden (dispatch Focus s') = documentHidden s'" for s'
    by (cases "content s'")
       (simp_all add: dispatch_def handleFocus_def showContent_def setTimeout_def)
  show "isFocused (run [(t1, Blur), (t2, VisibilityChange False)] s)"
    and "\<not> windowHasFocus (run [(t1, Blur), (t2, VisibilityChange False)] s)"
    by (simp_all add: vis advance_browser_view blur)
  show "isFocused (run [(t1, VisibilityChange True), (t2, Focus)] s)"
    and "documentHidden (run [(t1, VisibilityChange True), (t2, Focus)] s)"
    by (simp_all add: foc advance_browser_view hide)
qed

text \<open>
  On the mounted viewer after a window blur, and on the mounted viewer itself.
\<close>

theorem isFocused_last_signal_wins_witness:
  "isFocused (dispatch (VisibilityChange False) (dispatch Blur viewer))
   \<and> \<not> windowHasFocus (dispatch (VisibilityChange False) (dispatch Blur viewer))
   \<and> timers (dispatch (VisibilityChange False) (dispatch Blur viewer)) = [(100, RestoreStyle)]
   \<and> timers (dispatch Focus viewer) = [(100, RestoreStyle)]"
  using isFocused_last_signal_wins [of "dispatch Blur viewer"] isFocused_last_signal_wins [of viewer]
  by (simp add: viewer_def init_def dispatch_def handleBlur_def logEvent_def hideContentInstantly_def)

subsection \<open>Delayed show on a removed element\<close>

lemma showContent_torn_down: "content s = None \<Longrightarrow> fire ShowContent s = Inr s"
  by (simp add: fire_def showContent_def)

lemma restoreStyle_torn_down: "content s = None \<Longrightarrow> fire RestoreStyle s = Inl TypeError"
  by (simp add: fire_def restoreStyle_def)

text \<open>
  C7 at a failing input. The window regains focus at 0 ms, so \<open>showContent\<close> finds the
  element and schedules the restore for 100 ms; the element is removed at 50 ms; the
  restore is still pending, and when it runs at 100 ms it dereferences the null
  reference and throws instead of doing nothing. (When \<open>showContent\<close> itself is the
  timer callback, as after PrintScreen, it does test the reference: see
  \<open>showContent_torn_down\<close>.)
\<close>

theorem restore_after_teardown_throws:
  "timers (run [(0, Focus), (50, Unmount)] viewer) = [(100, RestoreStyle)]
   \<and> content (run [(0, Focus), (50, Unmount)] viewer) = None
   \<and> fire RestoreStyle (run [(0, Focus), (50, Unmount)] viewer) = Inl TypeError
   \<and> uncaught (advance 100 (run [(0, Focus), (50, Unmount)] viewer)) = [TypeError]"
  by code_simp

section \<open>Properties of the listener registration\<close>

text \<open>
  C8 at a failing input. The keyboard layer is enabled once and cleaned up: its keyup
  listener is still registered. Enabled, disabled and enabled again, then torn down: two
  keyup listeners are left. The other layers remove all they registered
  (\<open>other_layers_detach_completely\<close> below).
\<close>

theorem keyboard_keyup_listener_leaks:
  "toggle KeyboardLayer 0 [True] [] = [(Document, ''keyup'', Fn ''keyup arrow function'' 0, True)]
   \<and> toggle KeyboardLayer 0 [True, False, True] []
       = [(Document, ''keyup'', Fn ''keyup arrow function'' 0, True),
          (Document, ''keyup'', Fn ''keyup arrow function'' 2, True)]"
  by code_simp

lemma other_layers_detach_completely:
  "L \<noteq> KeyboardLayer \<Longrightarrow> toggle L g [True] [] = []"
  by (cases L) (simp_all add: layer_effect_def layer_cleanup_def addEventListener_def removeEventListener_def)

lemma removeEventListener_absent: "l \<notin> set reg \<Longrightarrow> removeEventListener l reg = reg"
  by (simp add: removeEventListener_def)

section \<open>Properties of the signed-URL probe\<close>

lemma attempts_response:
  "attempts (response_lines g @ rest) = attempts rest"
  "attempts (response_lines g) = []"
  by (cases g; simp)+

lemma successes_response:
  "successes (Some c) (response_lines g @ rest)
     = (if g = Status 200 then [c] else []) @ successes (Some c) rest"
  "successes (Some c) (response_lines g) = (if g = Status 200 then [c] else [])"
  by (cases g; simp)+

lemma attempt_answered:
  assumes "cloudinary_url env publicId
             \<lparr>resource_type = r, delivery_type = t, sign_url = True, secure = True\<rparr> = Inr u"
    and "thrown (https_get env i u) = None"
  shows "attempt env i r t
           = (Testing r t # GeneratedURL u # response_lines (https_get env i u), None)"
  using assms by (simp add: attempt_def)

text \<open>A signer that throws at the first combination ends the run before any request.\<close>

lemma testAccess_signer_throws:
  assumes "cloudinary_url env publicId
             \<lparr>resource_type = ''image'', delivery_type = ''upload'', sign_url = True,
              secure = True\<rparr> = Inl e"
  shows "testAccess env
           = ([Info ''Testing Cloudinary Access...'', CloudName (cloud_name env),
               Testing ''image'' ''upload''], Some e)"
  using assms by (simp add: testAccess_def resourceTypes_def types_def attempt_def)

lemma testAccess_unconfigured:
  "attempts (fst (testAccess probe_env_unconfigured)) = []
   \<and> snd (testAccess probe_env_unconfigured) = Some ''Must supply cloud_name''"
  by (simp add: testAccess_signer_throws probe_env_unconfigured_def)

lemma testAccess_answered:
  assumes "attempt env 0 ''image'' ''upload'' = (b0, None)"
    and "attempt env 1 ''image'' ''authenticated'' = (b1, None)"
    and "attempt env 2 ''raw'' ''upload'' = (b2, None)"
    and "attempt env 3 ''raw'' ''authenticated'' = (b3, None)"
    and "attempt env 4 ''auto'' ''upload'' = (b4, None)"
    and "attempt env 5 ''auto'' ''authenticated'' = (b5, None)"
  shows "testAccess env
           = ([Info ''Testing Cloudinary Access...'', CloudName (cloud_name env)]
              @ b0 @ b1 @ b2 @ b3 @ b4 @ b5, None)"
proof -
  have n: "Suc 0 = 1" "Suc 1 = 2" "Suc 2 = 3" "Suc 3 = 4" "Suc 4 = 5"
    by simp_all
  show ?thesis
    by (simp add: testAccess_def resourceTypes_def types_def assms n del: One_nat_def)
qed

text \<open>
  C9. Provided the signer returns a URL for each of the six option records (public id of
  the script, \<open>sign_url\<close> and \<open>secure\<close> set) and no request throws on the spot, the
  probe attempts image/upload, image/authenticated, raw/upload, raw/authenticated,
  auto/upload, auto/authenticated in this order (resource type in the outer loop,
  delivery type in the inner one), each with the URL the signer returned for that
  combination, runs to its end, and reports as working exactly the combinations whose
  request came back with status 200 (not those with another status, nor those whose
  request failed on the network).
\<close>

theorem testAccess_probes_all:
  "cloudinary_url env publicId
     \<lparr>resource_type = ''image'', delivery_type = ''upload'', sign_url = True, secure = True\<rparr>
     = Inr u0
   \<and> cloudinary_url env publicId
       \<lparr>resource_type = ''image'', delivery_type = ''authenticated'', sign_url = True,
        secure = True\<rparr> = Inr u1
   \<and> cloudinary_url env publicId
       \<lparr>resource_type = ''raw'', delivery_type = ''upload'', sign_url = True, secure = True\<rparr>
       = Inr u2
   \<and> cloudinary_url env publicId
       \<lparr>resource_type = ''raw'', delivery_type = ''authenticated'', sign_url = True,
        secure = True\<rparr> = Inr u3
   \<and> cloudinary_url env publicId
       \<lparr>resource_type = ''auto'', delivery_type = ''upload'', sign_url = True, secure = True\<rparr>
       = Inr u4
   \<and> cloudinary_url env publicId
       \<lparr>resource_type = ''auto'', delivery_type = ''authenticated'', sign_url = True,
        secure = True\<rparr> = Inr u5
   \<and> thrown (https_get env 0 u0) = None \<and> thrown (https_get env 1 u1) = None
   \<and> thrown (https_get env 2 u2) = None \<and> thrown (https_get env 3 u3) = None
   \<and> thrown (https_get env 4 u4) = None \<and> thrown (https_get env 5 u5) = None
   \<longrightarrow>
     attempts (fst (testAccess env))
       = [(''image'', ''upload'', u0), (''image'', ''authenticated'', u1),
          (''raw'', ''upload'', u2), (''raw'', ''authenticated'', u3),
          (''auto'', ''upload'', u4), (''auto'', ''authenticated'', u5)]
     \<and> snd (testAccess env) = None
     \<and> successes None (fst (testAccess env))
         = map snd
             (filter (\<lambda>(g, c). g = Status 200)
                [(https_get env 0 u0, (''image'', ''upload'')),
                 (https_get env 1 u1, (''image'', ''authenticated'')),
                 (https_get env 2 u2, (''raw'', ''upload'')),
                 (https_get env 3 u3, (''raw'', ''authenticated'')),
                 (https_get env 4 u4, (''auto'', ''upload'')),
                 (https_get env 5 u5, (''auto'', ''authenticated''))])"
proof (intro impI, elim conjE)
  assume s0: "cloudinary_url env publicId
     \<lparr>resource_type = ''image'', delivery_type = ''upload'', sign_url = True, secure = True\<rparr>
     = Inr u0"
    and s1: "cloudinary_url env publicId
       \<lparr>resource_type = ''image'', delivery_type = ''authenticated'', sign_url = True,
        secure = True\<rparr> = Inr u1"
    and s2: "cloudinary_url env publicId
       \<lparr>resource_type = ''raw'', delivery_type = ''upload'', sign_url = True, secure = True\<rparr>
       = Inr u2"
    and s3: "cloudinary_url env publicId
       \<lparr>resource_type = ''raw'', delivery_type = ''authenticated'', sign_url = True,
        secure = True\<rparr> = Inr u3"
    and s4: "cloudinary_url env publicId
       \<lparr>resource_type = ''auto'', delivery_type = ''upload'', sign_url = True, secure = True\<rparr>
       = Inr u4"
    and s5: "cloudinary_url env publicId
       \<lparr>resource_type = ''auto'', delivery_type = ''authenticated'', sign_url = True,
        secure = True\<rparr> = Inr u5"
    and g0: "thrown (https_get env 0 u0) = None" and g1: "thrown (https_get env 1 u1) = None"
    and g2: "thrown (https_get env 2 u2) = None" and g3: "thrown (https_get env 3 u3) = None"
    and g4: "thrown (https_get env 4 u4) = None" and g5: "thrown (https_get env 5 u5) = None"
  note run = testAccess_answered [OF attempt_answered [OF s0 g0] attempt_answered [OF s1 g1]
      attempt_answered [OF s2 g2] attempt_answered [OF s3 g3] attempt_answered [OF s4 g4]
      attempt_answered [OF s5 g5]]
  have a: "attempts (fst (testAccess env))
       = [(''image'', ''upload'', u0), (''image'', ''authenticated'', u1),
          (''raw'', ''upload'', u2), (''raw'', ''authenticated'', u3),
          (''auto'', ''upload'', u4), (''auto'', ''authenticated'', u5)]"
    by (simp add: run attempts_response)
  have e: "snd (testAccess env) = None"
    by (simp add: run)
  have w: "successes None (fst (testAccess env))
         = map snd
             (filter (\<lambda>(g, c). g = Status 200)
                [(https_get env 0 u0, (''image'', ''upload'')),
                 (https_get env 1 u1, (''image'', ''authenticated'')),
                 (https_get env 2 u2, (''raw'', ''upload'')),
                 (https_get env 3 u3, (''raw'', ''authenticated'')),
                 (https_get env 4 u4, (''auto'', ''upload'')),
                 (https_get env 5 u5, (''auto'', ''authenticated''))])"
    by (simp add: run successes_response)
  from a e w show "attempts (fst (testAccess env))
       = [(''image'', ''upload'', u0), (''image'', ''authenticated'', u1),
          (''raw'', ''upload'', u2), (''raw'', ''authenticated'', u3),
          (''auto'', ''upload'', u4), (''auto'', ''authenticated'', u5)]
     \<and> snd (testAccess env) = None
     \<and> successes None (fst (testAccess env))
         = map snd
             (filter (\<lambda>(g, c). g = Status 200)
                [(https_get env 0 u0, (''image'', ''upload'')),
                 (https_get env 1 u1, (''image'', ''authenticated'')),
                 (https_get env 2 u2, (''raw'', ''upload'')),
                 (https_get env 3 u3, (''raw'', ''authenticated'')),
                 (https_get env 4 u4, (''auto'', ''upload'')),
                 (https_get env 5 u5, (''auto'', ''authenticated''))])"
    by (intro conjI)
qed

text \<open>One run: the fourth request succeeds, the fifth fails on the network.\<close>

theorem testAccess_probes_all_witness:
  "attempts (fst (testAccess probe_env0))
     = [(''image'', ''upload'', ''image/upload''),
        (''image'', ''authenticated'', ''image/authenticated''),
        (''raw'', ''upload'', ''raw/upload''), (''raw'', ''authenticated'', ''raw/authenticated''),
        (''auto'', ''upload'', ''auto/upload''),
        (''auto'', ''authenticated'', ''auto/authenticated'')]
   \<and> snd (testAccess probe_env0) = None
   \<and> successes None (fst (testAccess probe_env0)) = [(''raw'', ''authenticated'')]"
  using testAccess_probes_all [of probe_env0 "''image/upload''" "''image/authenticated''"
      "''raw/upload''" "''raw/authenticated''" "''auto/upload''" "''auto/authenticated''"]
  by (simp add: probe_env0_def)

end
